theory Spec2Isabelle
  imports Main
begin

unbundle bit_operations_syntax

section \<open>The FFTW bindings of ravetools (src/ffts.cpp)\<close>

text \<open>
  The file ffts.cpp holds thin entry points around the FFTW library: each one picks a
  planning effort, possibly allocates a scratch array, creates a plan, executes it and
  releases what it acquired. The embedding below keeps the C control flow of every entry
  point and makes its effects explicit: a heap of arrays, the bytes the allocator can
  still grant, the sequence of library calls issued, and a fault flag for the steps whose
  behaviour C leaves undefined.
\<close>

subsection \<open>Constants of fftw3.h\<close>

text \<open>
  The planner flags and transform signs are macros of the FFTW 3 header, an external
  library header that ffts.h includes. The values are those of FFTW 3.3.
\<close>

definition FFTW_MEASURE :: int where "FFTW_MEASURE = 0"
definition FFTW_DESTROY_INPUT :: int where "FFTW_DESTROY_INPUT = 1"
definition FFTW_EXHAUSTIVE :: int where "FFTW_EXHAUSTIVE = 8"
definition FFTW_PATIENT :: int where "FFTW_PATIENT = 32"
definition FFTW_ESTIMATE :: int where "FFTW_ESTIMATE = 64"
definition FFTW_FORWARD :: int where "FFTW_FORWARD = - 1"
definition FFTW_BACKWARD :: int where "FFTW_BACKWARD = 1"

subsection \<open>C integer arithmetic\<close>

text \<open>
  Arguments arrive as pointers to C int; the model takes the pointed-to values as
  \<^typ>\<open>int\<close>. Division truncates towards zero. A signed product outside the 32-bit
  range is undefined behaviour, so \<open>c_mul\<close> gives no value there.
\<close>

definition c_div :: "int \<Rightarrow> int \<Rightarrow> int" where
  "c_div a b =
     (if (a < 0) = (b < 0) then \<bar>a\<bar> div \<bar>b\<bar> else - (\<bar>a\<bar> div \<bar>b\<bar>))"

definition c_mul :: "int \<Rightarrow> int \<Rightarrow> int option" where
  "c_mul a b = (if - (2 ^ 31) \<le> a * b \<and> a * b < 2 ^ 31 then Some (a * b) else None)"

subsection \<open>Arrays, plans and the world\<close>

text \<open>
  A pointer is an index into the heap, or NULL (\<open>None\<close>). An array of double is a list
  of cells, an array of fftw_complex (double[2]) a list of pairs of cells. A cell that was
  never written holds no determinate value (\<open>None\<close>). The element type \<open>'a\<close> stands for
  double: the bindings only ever copy such values and flip their sign.
\<close>

type_synonym ptr = "nat option"

datatype 'a buf =
    Dbl "'a option list"
  | Cpx "('a option \<times> 'a option) list"
  | Freed

datatype kind = R2C | C2R | C2C

text \<open>A plan records the arguments its creating call received.\<close>

record plan =
  pl_kind :: kind
  pl_rank :: int
  pl_n :: "int list"
  pl_howmany :: int
  pl_in :: ptr
  pl_idist :: int
  pl_out :: ptr
  pl_odist :: int
  pl_sign :: int
  pl_flags :: int

text \<open>
  The calls an entry point issues, in order. \<open>Plan\<close> and \<open>Execute\<close> also record what the
  plan's input array held when the call was made. Sizes of \<open>Malloc\<close> and \<open>Memcpy\<close> are an
  element count and the element size in bytes.
\<close>

datatype 'a event =
    Malloc int nat ptr
  | Plan plan "'a buf option"
  | Memcpy ptr ptr int nat
  | Execute plan "'a buf option"
  | Destroy plan
  | Free ptr

record 'a world =
  heap :: "'a buf list"
  avail :: nat
  trace :: "'a event list"
  fault :: bool

definition load :: "'a buf list \<Rightarrow> ptr \<Rightarrow> 'a buf option" where
  "load h p =
     (case p of
        None \<Rightarrow> None
      | Some a \<Rightarrow>
          if a < length h
          then (case h ! a of Freed \<Rightarrow> None | b \<Rightarrow> Some b)
          else None)"

definition emit :: "'a event \<Rightarrow> 'a world \<Rightarrow> 'a world" where
  "emit e w = w\<lparr>trace := trace w @ [e]\<rparr>"

definition crash :: "'a world \<Rightarrow> 'a world" where
  "crash w = w\<lparr>fault := True\<rparr>"

subsection \<open>The C library: multiplication of int, malloc, memcpy, free\<close>

definition int_mul :: "int \<Rightarrow> int \<Rightarrow> 'a world \<Rightarrow> int \<times> 'a world" where
  "int_mul a b w =
     (if fault w then (0, w)
      else case c_mul a b of None \<Rightarrow> (0, crash w) | Some k \<Rightarrow> (k, w))"

definition sizeof_double :: nat where "sizeof_double = 8"
definition sizeof_fftw_complex :: nat where "sizeof_fftw_complex = 16"

text \<open>
  \<open>malloc_of fresh sz k\<close> is \<open>malloc(k * sz)\<close> for an int \<open>k\<close>, the result cast to the element
  type of \<open>fresh\<close>. A negative \<open>k\<close> converts to a size_t above \<open>2^63\<close>, which no allocator
  grants. The new array is the next heap index and its cells hold no determinate value.
\<close>

definition malloc_of ::
  "(nat \<Rightarrow> 'a buf) \<Rightarrow> nat \<Rightarrow> int \<Rightarrow> 'a world \<Rightarrow> ptr \<times> 'a world" where
  "malloc_of fresh sz k w =
     (if fault w then (None, w)
      else if 0 \<le> k \<and> nat k * sz \<le> avail w
      then (Some (length (heap w)),
            emit (Malloc k sz (Some (length (heap w))))
              (w\<lparr>heap := heap w @ [fresh (nat k)], avail := avail w - nat k * sz\<rparr>))
      else (None, emit (Malloc k sz None) w))"

definition malloc_double :: "int \<Rightarrow> 'a world \<Rightarrow> ptr \<times> 'a world" where
  "malloc_double = malloc_of (\<lambda>k. Dbl (replicate k None)) sizeof_double"

definition malloc_complex :: "int \<Rightarrow> 'a world \<Rightarrow> ptr \<times> 'a world" where
  "malloc_complex = malloc_of (\<lambda>k. Cpx (replicate k (None, None))) sizeof_fftw_complex"

text \<open>
  \<open>memcpy_double dst src k\<close> is \<open>memcpy(dst, src, k * sizeof(double))\<close>, and likewise for
  fftw_complex. Copying from or to NULL, a released array, or beyond the end of either
  array is undefined behaviour.
\<close>

definition copy_cells :: "nat \<Rightarrow> 'c list \<Rightarrow> 'c list \<Rightarrow> 'c list option" where
  "copy_cells k src dst =
     (if k \<le> length src \<and> k \<le> length dst then Some (take k src @ drop k dst) else None)"

fun copy_buf :: "nat \<Rightarrow> 'a buf \<Rightarrow> 'a buf \<Rightarrow> 'a buf option" where
  "copy_buf k (Dbl src) (Dbl dst) = map_option Dbl (copy_cells k src dst)"
| "copy_buf k (Cpx src) (Cpx dst) = map_option Cpx (copy_cells k src dst)"
| "copy_buf k _ _ = None"

fun is_dbl :: "'a buf \<Rightarrow> bool" where
  "is_dbl (Dbl _) = True"
| "is_dbl _ = False"

fun is_cpx :: "'a buf \<Rightarrow> bool" where
  "is_cpx (Cpx _) = True"
| "is_cpx _ = False"

definition memcpy_of ::
  "('a buf \<Rightarrow> bool) \<Rightarrow> nat \<Rightarrow> ptr \<Rightarrow> ptr \<Rightarrow> int \<Rightarrow> 'a world \<Rightarrow> 'a world" where
  "memcpy_of elem sz dst src k w =
     (if fault w then w
      else let w1 = emit (Memcpy dst src k sz) w in
        case (dst, load (heap w) src, load (heap w) dst) of
          (Some d, Some bs, Some bd) \<Rightarrow>
            if 0 \<le> k \<and> elem bs \<and> elem bd
            then (case copy_buf (nat k) bs bd of
                    None \<Rightarrow> crash w1
                  | Some b \<Rightarrow> w1\<lparr>heap := (heap w1)[d := b]\<rparr>)
            else crash w1
        | _ \<Rightarrow> crash w1)"

definition memcpy_double :: "ptr \<Rightarrow> ptr \<Rightarrow> int \<Rightarrow> 'a world \<Rightarrow> 'a world" where
  "memcpy_double = memcpy_of is_dbl sizeof_double"

definition memcpy_complex :: "ptr \<Rightarrow> ptr \<Rightarrow> int \<Rightarrow> 'a world \<Rightarrow> 'a world" where
  "memcpy_complex = memcpy_of is_cpx sizeof_fftw_complex"

definition free :: "ptr \<Rightarrow> 'a world \<Rightarrow> 'a world" where
  "free p w =
     (if fault w then w
      else case p of
        None \<Rightarrow> emit (Free p) w
      | Some a \<Rightarrow>
          if load (heap w) p = None then crash (emit (Free p) w)
          else emit (Free p) (w\<lparr>heap := (heap w)[a := Freed]\<rparr>))"

subsection \<open>The FFTW library\<close>

text \<open>
  FFTW itself is outside the repository, so its numerical behaviour is a parameter: what
  the planner leaves in a plan's two arrays, and what execution leaves in them. The
  library reads and writes the cells of the two arrays of the plan and nothing else;
  \<open>fit\<close> keeps the extent and element type of an array whatever the parameter returns.
\<close>

record 'a fftw =
  planner :: "plan \<Rightarrow> 'a buf \<Rightarrow> 'a buf \<Rightarrow> 'a buf \<times> 'a buf"
  executor :: "plan \<Rightarrow> 'a buf \<Rightarrow> 'a buf \<Rightarrow> 'a buf \<times> 'a buf"

fun fit :: "'a buf \<Rightarrow> 'a buf \<Rightarrow> 'a buf" where
  "fit (Dbl old) (Dbl new) = Dbl (take (length old) new @ drop (length new) old)"
| "fit (Cpx old) (Cpx new) = Cpx (take (length old) new @ drop (length new) old)"
| "fit old _ = old"

text \<open>
  \<open>touch f p\<close> lets the library function \<open>f\<close> work on the input and output array of plan
  \<open>p\<close>. An array that is NULL or released makes the access undefined.
\<close>

definition touch ::
  "(plan \<Rightarrow> 'a buf \<Rightarrow> 'a buf \<Rightarrow> 'a buf \<times> 'a buf) \<Rightarrow> plan \<Rightarrow> 'a world \<Rightarrow> 'a world" where
  "touch f p w =
     (case (pl_in p, pl_out p, load (heap w) (pl_in p), load (heap w) (pl_out p)) of
        (Some i, Some out, Some bi, Some bo) \<Rightarrow>
          w\<lparr>heap := ((heap w)[i := fit bi (fst (f p bi bo))])[out := fit bo (snd (f p bi bo))]\<rparr>
      | _ \<Rightarrow> crash w)"

text \<open>
  Plan creation. Quoting the comment in cmvfft_r2c (from the FFTW manual): the planner
  overwrites the input array during planning unless the flag FFTW_ESTIMATE (or
  FFTW_WISDOM_ONLY, never passed here) is given.
\<close>

definition fftw_mkplan :: "'a fftw \<Rightarrow> plan \<Rightarrow> 'a world \<Rightarrow> plan \<times> 'a world" where
  "fftw_mkplan L p w =
     (if fault w then (p, w)
      else let w1 = emit (Plan p (load (heap w) (pl_in p))) w in
        if pl_flags p AND FFTW_ESTIMATE \<noteq> 0 then (p, w1)
        else (p, touch (planner L) p w1))"

definition fftw_plan_dft_r2c_1d ::
  "'a fftw \<Rightarrow> int \<Rightarrow> ptr \<Rightarrow> ptr \<Rightarrow> int \<Rightarrow> 'a world \<Rightarrow> plan \<times> 'a world" where
  "fftw_plan_dft_r2c_1d L n inp out fl =
     fftw_mkplan L \<lparr>pl_kind = R2C, pl_rank = 1, pl_n = [n], pl_howmany = 1,
       pl_in = inp, pl_idist = 0, pl_out = out, pl_odist = 0, pl_sign = 0, pl_flags = fl\<rparr>"

definition fftw_plan_dft_1d ::
  "'a fftw \<Rightarrow> int \<Rightarrow> ptr \<Rightarrow> ptr \<Rightarrow> int \<Rightarrow> int \<Rightarrow> 'a world \<Rightarrow> plan \<times> 'a world" where
  "fftw_plan_dft_1d L n inp out sg fl =
     fftw_mkplan L \<lparr>pl_kind = C2C, pl_rank = 1, pl_n = [n], pl_howmany = 1,
       pl_in = inp, pl_idist = 0, pl_out = out, pl_odist = 0, pl_sign = sg, pl_flags = fl\<rparr>"

definition fftw_plan_dft_2d ::
  "'a fftw \<Rightarrow> int \<Rightarrow> int \<Rightarrow> ptr \<Rightarrow> ptr \<Rightarrow> int \<Rightarrow> int \<Rightarrow> 'a world \<Rightarrow> plan \<times> 'a world" where
  "fftw_plan_dft_2d L nx ny inp out sg fl =
     fftw_mkplan L \<lparr>pl_kind = C2C, pl_rank = 2, pl_n = [nx, ny], pl_howmany = 1,
       pl_in = inp, pl_idist = 0, pl_out = out, pl_odist = 0, pl_sign = sg, pl_flags = fl\<rparr>"

definition fftw_plan_dft_3d ::
  "'a fftw \<Rightarrow> int \<Rightarrow> int \<Rightarrow> int \<Rightarrow> ptr \<Rightarrow> ptr \<Rightarrow> int \<Rightarrow> int \<Rightarrow> 'a world \<Rightarrow> plan \<times> 'a world" where
  "fftw_plan_dft_3d L nx ny nz inp out sg fl =
     fftw_mkplan L \<lparr>pl_kind = C2C, pl_rank = 3, pl_n = [nx, ny, nz], pl_howmany = 1,
       pl_in = inp, pl_idist = 0, pl_out = out, pl_odist = 0, pl_sign = sg, pl_flags = fl\<rparr>"

definition fftw_plan_dft ::
  "'a fftw \<Rightarrow> int \<Rightarrow> int list \<Rightarrow> ptr \<Rightarrow> ptr \<Rightarrow> int \<Rightarrow> int \<Rightarrow> 'a world \<Rightarrow> plan \<times> 'a world" where
  "fftw_plan_dft L r ns inp out sg fl =
     fftw_mkplan L \<lparr>pl_kind = C2C, pl_rank = r, pl_n = ns, pl_howmany = 1,
       pl_in = inp, pl_idist = 0, pl_out = out, pl_odist = 0, pl_sign = sg, pl_flags = fl\<rparr>"

text \<open>
  The batched planners are always called with inembed = onembed = NULL and
  istride = ostride = 1; the model keeps the remaining arguments.
\<close>

definition fftw_plan_many_dft_r2c ::
  "'a fftw \<Rightarrow> int \<Rightarrow> int list \<Rightarrow> int \<Rightarrow> ptr \<Rightarrow> int \<Rightarrow> ptr \<Rightarrow> int \<Rightarrow> int \<Rightarrow>
     'a world \<Rightarrow> plan \<times> 'a world" where
  "fftw_plan_many_dft_r2c L r ns hm inp idst out odst fl =
     fftw_mkplan L \<lparr>pl_kind = R2C, pl_rank = r, pl_n = ns, pl_howmany = hm,
       pl_in = inp, pl_idist = idst, pl_out = out, pl_odist = odst, pl_sign = 0,
       pl_flags = fl\<rparr>"

definition fftw_plan_many_dft_c2r ::
  "'a fftw \<Rightarrow> int \<Rightarrow> int list \<Rightarrow> int \<Rightarrow> ptr \<Rightarrow> int \<Rightarrow> ptr \<Rightarrow> int \<Rightarrow> int \<Rightarrow>
     'a world \<Rightarrow> plan \<times> 'a world" where
  "fftw_plan_many_dft_c2r L r ns hm inp idst out odst fl =
     fftw_mkplan L \<lparr>pl_kind = C2R, pl_rank = r, pl_n = ns, pl_howmany = hm,
       pl_in = inp, pl_idist = idst, pl_out = out, pl_odist = odst, pl_sign = 0,
       pl_flags = fl\<rparr>"

definition fftw_plan_many_dft ::
  "'a fftw \<Rightarrow> int \<Rightarrow> int list \<Rightarrow> int \<Rightarrow> ptr \<Rightarrow> int \<Rightarrow> ptr \<Rightarrow> int \<Rightarrow> int \<Rightarrow> int \<Rightarrow>
     'a world \<Rightarrow> plan \<times> 'a world" where
  "fftw_plan_many_dft L r ns hm inp idst out odst sg fl =
     fftw_mkplan L \<lparr>pl_kind = C2C, pl_rank = r, pl_n = ns, pl_howmany = hm,
       pl_in = inp, pl_idist = idst, pl_out = out, pl_odist = odst, pl_sign = sg,
       pl_flags = fl\<rparr>"

definition fftw_execute :: "'a fftw \<Rightarrow> plan \<Rightarrow> 'a world \<Rightarrow> 'a world" where
  "fftw_execute L p w =
     (if fault w then w
      else touch (executor L) p (emit (Execute p (load (heap w) (pl_in p))) w))"

definition fftw_destroy_plan :: "plan \<Rightarrow> 'a world \<Rightarrow> 'a world" where
  "fftw_destroy_plan p w = (if fault w then w else emit (Destroy p) w)"

subsection \<open>The entry points of ffts.cpp\<close>

definition fftw_efforts :: "int \<Rightarrow> int" where
  "fftw_efforts fftwplanopt =
     (if fftwplanopt \<le> 0 then FFTW_ESTIMATE
      else if fftwplanopt = 1 then FFTW_MEASURE
      else if fftwplanopt = 2 then FFTW_PATIENT
      else FFTW_EXHAUSTIVE)"

text \<open>
  One pass of the loop body of cfft_r2c on the output array: the real part of bin
  \<open>n - i\<close> is stored into bin \<open>i\<close>, then the negated imaginary part. An index outside the
  array is undefined behaviour.
\<close>

definition neg :: "'a::uminus option \<Rightarrow> 'a option" where
  "neg c = map_option uminus c"

definition conjugate :: "'a::uminus option \<times> 'a option \<Rightarrow> 'a option \<times> 'a option" where
  "conjugate z = (fst z, neg (snd z))"

definition herm_step ::
  "int \<Rightarrow> int \<Rightarrow> ('a::uminus option \<times> 'a option) list \<Rightarrow>
     ('a option \<times> 'a option) list option" where
  "herm_step n i res =
     (if 0 \<le> i \<and> i < int (length res) \<and> 0 \<le> n - i \<and> n - i < int (length res)
      then let r1 = res[nat i := (fst (res ! nat (n - i)), snd (res ! nat i))];
               r2 = r1[nat i := (fst (r1 ! nat i), neg (snd (r1 ! nat (n - i))))]
           in Some r2
      else None)"

definition herm_body :: "ptr \<Rightarrow> int \<Rightarrow> int \<Rightarrow> 'a::uminus world \<Rightarrow> 'a world" where
  "herm_body res n i w =
     (if fault w then w
      else case (res, load (heap w) res) of
        (Some a, Some (Cpx xs)) \<Rightarrow>
          (case herm_step n i xs of
             None \<Rightarrow> crash w
           | Some ys \<Rightarrow> w\<lparr>heap := (heap w)[a := Cpx ys]\<rparr>)
      | _ \<Rightarrow> crash w)"

function herm_loop :: "ptr \<Rightarrow> int \<Rightarrow> int \<Rightarrow> 'a::uminus world \<Rightarrow> 'a world" where
  "herm_loop res n i w =
     (if i < n then herm_loop res n (i + 1) (herm_body res n i w) else w)"
  by pat_completeness auto
termination
  by (relation "measure (\<lambda>(res, n, i, w). nat (n - i))") auto

declare herm_loop.simps [simp del]

definition cfft_r2c ::
  "'a::uminus fftw \<Rightarrow> int \<Rightarrow> ptr \<Rightarrow> ptr \<Rightarrow> int \<Rightarrow> int \<Rightarrow> 'a world \<Rightarrow> 'a world" where
  "cfft_r2c L n data res retHermConj fftwplanopt w0 =
     (let nc = c_div n 2 + 1;
          effort = fftw_efforts fftwplanopt;
          (p, data_copy, w1) =
            (if effort = FFTW_ESTIMATE
             then let (p, w) = fftw_plan_dft_r2c_1d L n data res
                                 (FFTW_DESTROY_INPUT OR effort) w0
                  in (p, None, w)
             else let (data_copy, wa) = malloc_double n w0;
                      (p, wb) = fftw_plan_dft_r2c_1d L n data_copy res
                                  (FFTW_DESTROY_INPUT OR effort) wa;
                      wc = memcpy_double data_copy data n wb
                  in (p, data_copy, wc));
          w2 = fftw_execute L p w1;
          w3 = (if retHermConj = 1 then herm_loop res n nc w2 else w2);
          w4 = fftw_destroy_plan p w3
      in if data_copy \<noteq> None then free data_copy w4 else w4)"

definition cfft_c2c ::
  "'a fftw \<Rightarrow> int \<Rightarrow> ptr \<Rightarrow> ptr \<Rightarrow> int \<Rightarrow> 'a world \<Rightarrow> 'a world" where
  "cfft_c2c L n data res inverse' w0 =
     (let sg = (if inverse' = 1 then FFTW_BACKWARD else FFTW_FORWARD);
          (p, w1) = fftw_plan_dft_1d L n data res sg (FFTW_DESTROY_INPUT OR FFTW_ESTIMATE) w0;
          w2 = fftw_execute L p w1
      in fftw_destroy_plan p w2)"

definition cmvfft_r2c ::
  "'a fftw \<Rightarrow> int \<Rightarrow> int \<Rightarrow> ptr \<Rightarrow> ptr \<Rightarrow> int \<Rightarrow> 'a world \<Rightarrow> 'a world" where
  "cmvfft_r2c L n m data res fftwplanopt w0 =
     (let nc = c_div n 2 + 1;
          effort = fftw_efforts fftwplanopt;
          (p, data_copy, w1) =
            (if effort = FFTW_ESTIMATE
             then let (p, w) = fftw_plan_many_dft_r2c L 1 [n] m data n res nc
                                 (FFTW_DESTROY_INPUT OR effort) w0
                  in (p, None, w)
             else let (k, wa) = int_mul n m w0;
                      (data_copy, wb) = malloc_double k wa;
                      (p, wc) = fftw_plan_many_dft_r2c L 1 [n] m data_copy n res nc
                                  (FFTW_DESTROY_INPUT OR effort) wb;
                      (k', wd) = int_mul n m wc;
                      we = memcpy_double data_copy data k' wd
                  in (p, data_copy, we));
          w2 = fftw_execute L p w1;
          w3 = fftw_destroy_plan p w2
      in if data_copy \<noteq> None then free data_copy w3 else w3)"

definition cmvfft_c2r ::
  "'a fftw \<Rightarrow> int \<Rightarrow> int \<Rightarrow> ptr \<Rightarrow> ptr \<Rightarrow> int \<Rightarrow> 'a world \<Rightarrow> 'a world" where
  "cmvfft_c2r L n m data res fftwplanopt w0 =
     (let nc = c_div n 2 + 1;
          effort = fftw_efforts fftwplanopt;
          (p, data_copy, w1) =
            (if effort = FFTW_ESTIMATE
             then let (p, w) = fftw_plan_many_dft_c2r L 1 [n] m data nc res n
                                 (FFTW_DESTROY_INPUT OR effort) w0
                  in (p, None, w)
             else let (k, wa) = int_mul n m w0;
                      (data_copy, wb) = malloc_complex k wa;
                      (p, wc) = fftw_plan_many_dft_c2r L 1 [n] m data_copy nc res n
                                  (FFTW_DESTROY_INPUT OR effort) wb;
                      wd = memcpy_complex data_copy data n wc
                  in (p, data_copy, wd));
          w2 = fftw_execute L p w1;
          w3 = fftw_destroy_plan p w2
      in if data_copy \<noteq> None then free data_copy w3 else w3)"

definition cmvfft_c2c ::
  "'a fftw \<Rightarrow> int \<Rightarrow> int \<Rightarrow> ptr \<Rightarrow> ptr \<Rightarrow> int \<Rightarrow> int \<Rightarrow> 'a world \<Rightarrow> 'a world" where
  "cmvfft_c2c L n m data res inverse' fftwplanopt w0 =
     (let sg = (if inverse' = 1 then FFTW_BACKWARD else FFTW_FORWARD);
          effort = fftw_efforts fftwplanopt;
          (p, data_copy, w1) =
            (if effort = FFTW_ESTIMATE
             then let (p, w) = fftw_plan_many_dft L 1 [n] m data n res n sg
                                 (FFTW_DESTROY_INPUT OR effort) w0
                  in (p, None, w)
             else let (k, wa) = int_mul n m w0;
                      (data_copy, wb) = malloc_complex k wa;
                      (p, wc) = fftw_plan_many_dft L 1 [n] m data_copy n res n sg
                                  (FFTW_DESTROY_INPUT OR effort) wb;
                      wd = memcpy_complex data_copy data n wc
                  in (p, data_copy, wd));
          w2 = fftw_execute L p w1;
          w3 = fftw_destroy_plan p w2
      in if data_copy \<noteq> None then free data_copy w3 else w3)"

definition cfft_c2c_2d ::
  "'a fftw \<Rightarrow> int \<Rightarrow> int \<Rightarrow> ptr \<Rightarrow> ptr \<Rightarrow> int \<Rightarrow> 'a world \<Rightarrow> 'a world" where
  "cfft_c2c_2d L nx ny data res inverse' w0 =
     (let sg = (if inverse' = 1 then FFTW_BACKWARD else FFTW_FORWARD);
          (p, w1) = fftw_plan_dft_2d L nx ny data res sg
                      (FFTW_DESTROY_INPUT OR FFTW_ESTIMATE) w0;
          w2 = fftw_execute L p w1
      in fftw_destroy_plan p w2)"

definition cfft_c2c_3d ::
  "'a fftw \<Rightarrow> int \<Rightarrow> int \<Rightarrow> int \<Rightarrow> ptr \<Rightarrow> ptr \<Rightarrow> int \<Rightarrow> 'a world \<Rightarrow> 'a world" where
  "cfft_c2c_3d L nx ny nz data res inverse' w0 =
     (let sg = (if inverse' = 1 then FFTW_BACKWARD else FFTW_FORWARD);
          (p, w1) = fftw_plan_dft_3d L nx ny nz data res sg
                      (FFTW_DESTROY_INPUT OR FFTW_ESTIMATE) w0;
          w2 = fftw_execute L p w1
      in fftw_destroy_plan p w2)"

definition cfft_c2c_xd ::
  "'a fftw \<Rightarrow> int \<Rightarrow> int list \<Rightarrow> ptr \<Rightarrow> ptr \<Rightarrow> int \<Rightarrow> 'a world \<Rightarrow> 'a world" where
  "cfft_c2c_xd L r n data res inverse' w0 =
     (let sg = (if inverse' = 1 then FFTW_BACKWARD else FFTW_FORWARD);
          (p, w1) = fftw_plan_dft L r n data res sg (FFTW_DESTROY_INPUT OR FFTW_ESTIMATE) w0;
          w2 = fftw_execute L p w1
      in fftw_destroy_plan p w2)"

subsection \<open>Reading a run\<close>

text \<open>The calls issued between two worlds, and the plans created among them.\<close>

definition new_events :: "'a world \<Rightarrow> 'a world \<Rightarrow> 'a event list" where
  "new_events w w' = drop (length (trace w)) (trace w')"

fun plans :: "'a event list \<Rightarrow> plan list" where
  "plans [] = []"
| "plans (Plan p s # es) = p # plans es"
| "plans (e # es) = plans es"

text \<open>The plans executed among a sequence of calls.\<close>

fun runs :: "'a event list \<Rightarrow> plan list" where
  "runs [] = []"
| "runs (Execute p s # es) = p # runs es"
| "runs (e # es) = runs es"

text \<open>
  \<open>planned_before_copy ps es\<close> checks a sequence of calls: whenever a plan is created, its
  input array holds no written cell (or is no array at all), and every memcpy writes into
  the input array of a plan created before it; \<open>ps\<close> collects those input arrays.
\<close>

fun unwritten :: "'a buf option \<Rightarrow> bool" where
  "unwritten (Some (Dbl xs)) = list_all (\<lambda>c. c = None) xs"
| "unwritten (Some (Cpx xs)) = list_all (\<lambda>c. c = (None, None)) xs"
| "unwritten _ = True"

fun planned_before_copy :: "ptr list \<Rightarrow> 'a event list \<Rightarrow> bool" where
  "planned_before_copy ps [] = True"
| "planned_before_copy ps (Plan p s # es) =
     (unwritten s \<and> planned_before_copy (pl_in p # ps) es)"
| "planned_before_copy ps (Memcpy dst src k sz # es) =
     (dst \<in> set ps \<and> planned_before_copy ps es)"
| "planned_before_copy ps (e # es) = planned_before_copy ps es"

text \<open>
  The loop of cfft_r2c as one simultaneous assignment: every bin \<open>j\<close> with
  \<open>i \<le> j < n\<close> receives the conjugate of bin \<open>n - j\<close> of the array the loop started from.
  \<open>herm_steps\<close> runs the loop body over a list of indices in the order given.
\<close>

definition herm_fill ::
  "int \<Rightarrow> int \<Rightarrow> ('a::uminus option \<times> 'a option) list \<Rightarrow> ('a option \<times> 'a option) list" where
  "herm_fill n i res =
     map (\<lambda>j. if i \<le> int j \<and> int j < n then conjugate (res ! nat (n - int j)) else res ! j)
       [0..<length res]"

fun herm_steps ::
  "int \<Rightarrow> int list \<Rightarrow> ('a::uminus option \<times> 'a option) list \<Rightarrow>
     ('a option \<times> 'a option) list option" where
  "herm_steps n [] res = Some res"
| "herm_steps n (i # js) res =
     (case herm_step n i res of None \<Rightarrow> None | Some r \<Rightarrow> herm_steps n js r)"

subsection \<open>Two instances of the library, for running the model\<close>

text \<open>
  \<open>fftw_len1\<close> is exact for signals of length 1, where the discrete Fourier transform is
  the identity: a real sample \<open>x\<close> becomes the bin \<open>(x, 0)\<close>, a bin becomes its real part,
  a complex sample stays. Its planner leaves the arrays as they are.
  \<open>fftw_answer s\<close> writes the given spectrum \<open>s\<close> into the output array on execution.
\<close>

definition fftw_len1 :: "int fftw" where
  "fftw_len1 =
     \<lparr>planner = (\<lambda>p bi bo. (bi, bo)),
      executor = (\<lambda>p bi bo.
        (bi, case pl_kind p of
               R2C \<Rightarrow> (case bi of Dbl xs \<Rightarrow> Cpx (map (\<lambda>x. (x, Some 0)) xs) | _ \<Rightarrow> bo)
             | C2R \<Rightarrow> (case bi of Cpx zs \<Rightarrow> Dbl (map fst zs) | _ \<Rightarrow> bo)
             | C2C \<Rightarrow> bi))\<rparr>"

definition fftw_answer :: "'a buf \<Rightarrow> 'a fftw" where
  "fftw_answer spectrum =
     \<lparr>planner = (\<lambda>p bi bo. (bi, bo)), executor = (\<lambda>p bi bo. (bi, spectrum))\<rparr>"

subsection \<open>Concrete worlds\<close>

text \<open>
  Worlds on which the entry points are run below. In each, the caller's input array is at
  address 0 and the output array at address 1, nothing has been called yet, and the
  allocator can grant 64 bytes (none in \<open>world_no_memory\<close>).
\<close>

definition world_r2c :: "int world" where
  "world_r2c =
     \<lparr>heap = [Dbl [Some 5, Some 7], Cpx [(None, None), (None, None)]],
      avail = 64, trace = [], fault = False\<rparr>"

definition world_r2c4 :: "int world" where
  "world_r2c4 =
     \<lparr>heap = [Dbl [Some 1, Some 2, Some 3, Some 4],
              Cpx [(None, None), (None, None), (None, None), (None, None)]],
      avail = 64, trace = [], fault = False\<rparr>"

definition world_no_memory :: "int world" where
  "world_no_memory =
     \<lparr>heap = [Dbl [Some 1, Some 2, Some 3, Some 4],
              Cpx [(None, None), (None, None), (None, None), (None, None)]],
      avail = 0, trace = [], fault = False\<rparr>"

definition world_c2c :: "int world" where
  "world_c2c =
     \<lparr>heap = [Cpx [(Some 5, Some 0), (Some 7, Some 0)], Cpx [(None, None), (None, None)]],
      avail = 64, trace = [], fault = False\<rparr>"

definition world_c2r :: "int world" where
  "world_c2r =
     \<lparr>heap = [Cpx [(Some 5, Some 0), (Some 7, Some 0)], Dbl [None, None]],
      avail = 64, trace = [], fault = False\<rparr>"

text \<open>The forward transform of the real sequence 1, 2, 3, 4: its first three bins.\<close>

definition spectrum_1234 :: "int buf" where
  "spectrum_1234 = Cpx [(Some 10, Some 0), (Some (- 2), Some 2), (Some (- 2), Some 0)]"

section \<open>Auxiliary facts\<close>

subsection \<open>Flags, traces\<close>

lemmas fftw_consts =
  FFTW_MEASURE_def FFTW_DESTROY_INPUT_def FFTW_EXHAUSTIVE_def FFTW_PATIENT_def
  FFTW_ESTIMATE_def FFTW_FORWARD_def FFTW_BACKWARD_def

lemma flags_estimate:
  "(FFTW_DESTROY_INPUT OR fftw_efforts c) AND FFTW_ESTIMATE \<noteq> 0 \<longleftrightarrow> c \<le> 0"
  by (simp add: fftw_efforts_def fftw_consts)

lemma flags_const_estimate: "(FFTW_DESTROY_INPUT OR FFTW_ESTIMATE) AND FFTW_ESTIMATE \<noteq> 0"
  by (simp add: fftw_consts)

lemma efforts_estimate: "fftw_efforts c = FFTW_ESTIMATE \<longleftrightarrow> c \<le> 0"
  by (simp add: fftw_efforts_def fftw_consts)

lemma fst_mkplan [simp]: "fst (fftw_mkplan L p w) = p"
  by (simp add: fftw_mkplan_def Let_def)

lemma trace_touch [simp]: "trace (touch f p w) = trace w"
  by (simp add: touch_def crash_def split: option.splits)

lemma new_events_app: "trace w' = trace w @ es \<Longrightarrow> new_events w w' = es"
  by (simp add: new_events_def)

lemma mkplan_trace:
  "\<not> fault w \<Longrightarrow> trace (snd (fftw_mkplan L p w)) = trace w @ [Plan p (load (heap w) (pl_in p))]"
  by (simp add: fftw_mkplan_def Let_def emit_def)

lemma execute_trace:
  "trace (fftw_execute L p w) = trace w @ (if fault w then [] else [Execute p (load (heap w) (pl_in p))])"
  by (simp add: fftw_execute_def emit_def)

lemma destroy_trace:
  "trace (fftw_destroy_plan p w) = trace w @ (if fault w then [] else [Destroy p])"
  by (simp add: fftw_destroy_plan_def emit_def)

lemma plans_append [simp]: "plans (es @ fs) = plans es @ plans fs"
  by (induction es rule: plans.induct) simp_all

lemma runs_append [simp]: "runs (es @ fs) = runs es @ runs fs"
  by (induction es rule: runs.induct) simp_all

lemma mkplan_estimate_fault:
  "pl_flags p AND FFTW_ESTIMATE \<noteq> 0 \<Longrightarrow> fault (snd (fftw_mkplan L p w)) = fault w"
  by (simp add: fftw_mkplan_def Let_def emit_def)

lemma trace_int_mul [simp]: "trace (snd (int_mul a b w)) = trace w"
  by (simp add: int_mul_def crash_def split: option.splits)

lemma fault_int_mul: "c_mul a b = Some k \<Longrightarrow> int_mul a b w = ((if fault w then 0 else k), w)"
  by (simp add: int_mul_def)

lemma malloc_of_trace:
  "\<not> fault w \<Longrightarrow> trace (snd (malloc_of fresh sz k w)) = trace w @ [Malloc k sz (fst (malloc_of fresh sz k w))]"
  by (simp add: malloc_of_def emit_def)

lemma malloc_of_fault [simp]: "fault (snd (malloc_of fresh sz k w)) = fault w"
  by (simp add: malloc_of_def emit_def)

lemma memcpy_of_trace:
  "trace (memcpy_of el sz dst src k w) = trace w @ (if fault w then [] else [Memcpy dst src k sz])"
  by (simp add: memcpy_of_def emit_def crash_def Let_def split: option.splits)

lemma free_trace:
  "trace (free p w) = trace w @ (if fault w then [] else [Free p])"
  by (simp add: free_def emit_def crash_def Let_def split: option.splits)

subsection \<open>What a call leaves untouched\<close>

lemma touch_len: "d < length (heap w) \<Longrightarrow> d < length (heap (touch f p w))"
  by (simp add: touch_def crash_def split: option.splits)

lemma touch_nth:
  "pl_in p \<noteq> Some d \<Longrightarrow> pl_out p \<noteq> Some d \<Longrightarrow> heap (touch f p w) ! d = heap w ! d"
  by (auto simp add: touch_def crash_def split: option.splits)

lemma mkplan_len: "d < length (heap w) \<Longrightarrow> d < length (heap (snd (fftw_mkplan L p w)))"
  by (simp add: fftw_mkplan_def Let_def emit_def touch_len)

lemma mkplan_nth:
  "pl_in p \<noteq> Some d \<Longrightarrow> pl_out p \<noteq> Some d \<Longrightarrow>
     heap (snd (fftw_mkplan L p w)) ! d = heap w ! d"
  by (simp add: fftw_mkplan_def Let_def emit_def touch_nth)

lemma execute_len: "d < length (heap w) \<Longrightarrow> d < length (heap (fftw_execute L p w))"
  by (simp add: fftw_execute_def Let_def emit_def touch_len)

lemma execute_nth:
  "pl_in p \<noteq> Some d \<Longrightarrow> pl_out p \<noteq> Some d \<Longrightarrow>
     heap (fftw_execute L p w) ! d = heap w ! d"
  by (simp add: fftw_execute_def Let_def emit_def touch_nth)

lemma malloc_of_len: "d < length (heap w) \<Longrightarrow> d < length (heap (snd (malloc_of fresh sz k w)))"
  by (simp add: malloc_of_def emit_def)

lemma malloc_of_nth: "d < length (heap w) \<Longrightarrow> heap (snd (malloc_of fresh sz k w)) ! d = heap w ! d"
  by (simp add: malloc_of_def emit_def nth_append)

lemma malloc_of_fresh: "d < length (heap w) \<Longrightarrow> fst (malloc_of fresh sz k w) \<noteq> Some d"
  by (simp add: malloc_of_def)

lemma memcpy_of_len: "d < length (heap w) \<Longrightarrow> d < length (heap (memcpy_of el sz dst src k w))"
  by (simp add: memcpy_of_def emit_def crash_def Let_def split: option.splits)

lemma memcpy_of_nth: "dst \<noteq> Some d \<Longrightarrow> heap (memcpy_of el sz dst src k w) ! d = heap w ! d"
  by (auto simp add: memcpy_of_def emit_def crash_def Let_def split: option.splits)

lemma destroy_heap [simp]: "heap (fftw_destroy_plan p w) = heap w"
  by (simp add: fftw_destroy_plan_def emit_def)

lemma int_mul_heap [simp]: "heap (snd (int_mul a b w)) = heap w"
  by (simp add: int_mul_def crash_def split: option.splits)

lemma free_len: "d < length (heap w) \<Longrightarrow> d < length (heap (free p w))"
  by (simp add: free_def emit_def crash_def split: option.splits)

lemma free_nth: "p \<noteq> Some d \<Longrightarrow> heap (free p w) ! d = heap w ! d"
  by (auto simp add: free_def emit_def crash_def split: option.splits)

lemma herm_body_len: "d < length (heap w) \<Longrightarrow> d < length (heap (herm_body res n i w))"
  by (simp add: herm_body_def crash_def split: option.splits buf.splits)

lemma herm_body_nth: "res \<noteq> Some d \<Longrightarrow> heap (herm_body res n i w) ! d = heap w ! d"
  by (auto simp add: herm_body_def crash_def split: option.splits buf.splits)

lemma herm_loop_len: "d < length (heap w) \<Longrightarrow> d < length (heap (herm_loop res n i w))"
proof (induction res n i w rule: herm_loop.induct)
  case (1 res n i w)
  show ?case
  proof (cases "i < n")
    case True
    then show ?thesis using 1 by (subst herm_loop.simps) (simp add: herm_body_len)
  next
    case False
    then show ?thesis using 1 by (subst herm_loop.simps) simp
  qed
qed

lemma herm_loop_nth: "res \<noteq> Some d \<Longrightarrow> heap (herm_loop res n i w) ! d = heap w ! d"
proof (induction res n i w rule: herm_loop.induct)
  case (1 res n i w)
  show ?case
  proof (cases "i < n")
    case True
    then show ?thesis using 1 by (subst herm_loop.simps) (simp add: herm_body_nth)
  next
    case False
    then show ?thesis by (subst herm_loop.simps) simp
  qed
qed

lemmas frame_simps =
  mkplan_len mkplan_nth execute_len execute_nth malloc_of_len malloc_of_nth malloc_of_fresh
  memcpy_of_len memcpy_of_nth free_len free_nth herm_loop_len herm_loop_nth

lemma cfft_r2c_keeps_input:
  assumes "0 < opt" "d < length (heap w)" "res \<noteq> Some d"
  shows "heap (cfft_r2c L n (Some d) res flag opt w) ! d = heap w ! d"
  using assms
  by (simp add: cfft_r2c_def Let_def split_def efforts_estimate fftw_plan_dft_r2c_1d_def
      malloc_double_def memcpy_double_def frame_simps)

lemma cmvfft_r2c_keeps_input:
  assumes "0 < opt" "d < length (heap w)" "res \<noteq> Some d"
  shows "heap (cmvfft_r2c L n m (Some d) res opt w) ! d = heap w ! d"
  using assms
  by (simp add: cmvfft_r2c_def Let_def split_def efforts_estimate fftw_plan_many_dft_r2c_def
      malloc_double_def memcpy_double_def frame_simps)

subsection \<open>The scratch path, step by step\<close>

lemma load_Some_lt: "load h (Some a) = Some b \<Longrightarrow> a < length h \<and> h ! a = b \<and> b \<noteq> Freed"
  by (auto simp add: load_def split: if_splits buf.splits)

lemma load_append_new: "b \<noteq> Freed \<Longrightarrow> load (h @ [b]) (Some (length h)) = Some b"
  by (simp add: load_def split: buf.splits)

lemma load_append_other: "p \<noteq> Some (length h) \<Longrightarrow> load (h @ [b]) p = load h p"
  by (cases p) (auto simp add: load_def nth_append)

lemma load_upd_same: "a < length h \<Longrightarrow> b \<noteq> Freed \<Longrightarrow> load (h[a := b]) (Some a) = Some b"
  by (simp add: load_def split: buf.splits)

lemma load_upd_other: "p \<noteq> Some a \<Longrightarrow> load (h[a := b]) p = load h p"
  by (cases p) (simp_all add: load_def)

lemmas load_simps = load_append_new load_append_other load_upd_same load_upd_other

lemma fit_Freed [simp]: "(fit b x = Freed) = (b = Freed)"
  by (cases "(b, x)" rule: fit.cases) simp_all

lemma fit_Dbl: "\<exists>ys. fit (Dbl xs) x = Dbl ys \<and> length ys = length xs"
  by (cases x) auto

lemma fit_Cpx: "\<exists>ys. fit (Cpx xs) x = Cpx ys \<and> length ys = length xs"
  by (cases x) auto

lemma scratch_run:
  fixes w :: "'a world"
  assumes nf: "\<not> fault w"
    and K: "0 \<le> K" "nat K * sz \<le> avail w"
    and U: "fresh (nat K) = U" "U \<noteq> Freed"
    and p: "pl_in p = Some (length (heap w))" "pl_out p = res"
           "pl_flags p AND FFTW_ESTIMATE = 0"
    and res: "load (heap w) res = Some bo"
    and data: "load (heap w) data = Some bs" "res \<noteq> data"
    and C: "0 \<le> C" "el bs" "el (fit U (fst (planner L p U bo)))"
           "copy_buf (nat C) bs (fit U (fst (planner L p U bo))) = Some B"
  defines "a \<equiv> length (heap w)"
  defines "wa \<equiv> snd (malloc_of fresh sz K w)"
  defines "wb \<equiv> snd (fftw_mkplan L p wa)"
  defines "wc \<equiv> memcpy_of el sz (Some a) data C wb"
  defines "w2 \<equiv> fftw_execute L p wc"
  defines "bo' \<equiv> fit bo (snd (planner L p U bo))"
  shows "fst (malloc_of fresh sz K w) = Some a"
    and "\<not> fault w2"
    and "trace w2 = trace w @ [Malloc K sz (Some a), Plan p (Some U),
                               Memcpy (Some a) data C sz, Execute p (Some B)]"
    and "load (heap w2) res = Some (fit bo' (snd (executor L p B bo')))"
    and "load (heap w2) (Some a) \<noteq> None"
    and "length (heap w2) = Suc a"
proof -
  obtain r where r: "res = Some r" using res by (cases res) (simp_all add: load_def)
  obtain d where d: "data = Some d" using data by (cases data) (simp_all add: load_def)
  have rlt: "r < a" "bo \<noteq> Freed" using res r load_Some_lt[of "heap w" r bo] by (simp_all add: a_def)
  have dlt: "d < a" using data d load_Some_lt[of "heap w" d bs] by (simp_all add: a_def)
  have ne: "r \<noteq> a" "d \<noteq> a" "d \<noteq> r" using rlt dlt data r d by auto
  let ?U' = "fit U (fst (planner L p U bo))"
  have pa: "pl_in p = Some a" "pl_out p = Some r" using p r by (simp_all add: a_def)
  show m: "fst (malloc_of fresh sz K w) = Some a"
    using nf K by (simp add: malloc_of_def a_def)
  have wa: "wa = w\<lparr>heap := heap w @ [U], avail := avail w - nat K * sz,
                     trace := trace w @ [Malloc K sz (Some a)]\<rparr>"
    using nf K U by (simp add: wa_def malloc_of_def emit_def a_def)
  have ha: "heap wa = heap w @ [U]" "trace wa = trace w @ [Malloc K sz (Some a)]" "\<not> fault wa"
    using nf by (simp_all add: wa)
  have la: "load (heap wa) (Some a) = Some U" "load (heap wa) (Some r) = Some bo"
    "load (heap wa) (Some d) = Some bs"
    using U res data r d ne by (simp_all add: ha a_def load_simps)
  have wb: "wb = wa\<lparr>heap := ((heap wa)[a := ?U'])[r := bo'],
                     trace := trace wa @ [Plan p (Some U)]\<rparr>"
    using ha(3) pa p(3) la by (simp add: wb_def fftw_mkplan_def Let_def emit_def touch_def bo'_def)
  have hb: "heap wb = ((heap wa)[a := ?U'])[r := bo']"
    "trace wb = trace wa @ [Plan p (Some U)]" "\<not> fault wb"
    using ha(3) by (simp_all add: wb)
  have lens: "length (heap wa) = Suc a" by (simp add: ha a_def)
  have lb: "load (heap wb) (Some a) = Some ?U'"
    "load (heap wb) (Some r) = Some bo'" "load (heap wb) (Some d) = Some bs"
    using U rlt ne la lens by (simp_all add: hb load_simps bo'_def)
  have wc: "wc = wb\<lparr>heap := (heap wb)[a := B], trace := trace wb @ [Memcpy (Some a) data C sz]\<rparr>"
    using hb(3) C lb d by (simp add: wc_def memcpy_of_def Let_def emit_def)
  have hc: "heap wc = (heap wb)[a := B]"
    "trace wc = trace wb @ [Memcpy (Some a) data C sz]" "\<not> fault wc"
    using hb(3) by (simp_all add: wc)
  have Bn: "B \<noteq> Freed" using C(4) by (cases "(nat C, bs, ?U')" rule: copy_buf.cases) auto
  have lenb: "length (heap wb) = Suc a" by (simp add: hb lens)
  have lc: "load (heap wc) (Some a) = Some B" "load (heap wc) (Some r) = Some bo'"
    using Bn ne lb lenb by (simp_all add: hc load_simps)
  have w2: "w2 = wc\<lparr>heap := ((heap wc)[a := fit B (fst (executor L p B bo'))])[r := fit bo' (snd (executor L p B bo'))],
                     trace := trace wc @ [Execute p (Some B)]\<rparr>"
    using hc(3) pa lc by (simp add: w2_def fftw_execute_def Let_def emit_def touch_def)
  have lenc: "length (heap wc) = Suc a" by (simp add: hc lenb)
  have bon: "bo' \<noteq> Freed" using rlt by (simp add: bo'_def)
  show "\<not> fault w2" using hc(3) by (simp add: w2)
  show "trace w2 = trace w @ [Malloc K sz (Some a), Plan p (Some U),
                               Memcpy (Some a) data C sz, Execute p (Some B)]"
    by (simp add: w2 hc hb ha)
  show "load (heap w2) res = Some (fit bo' (snd (executor L p B bo')))"
    using rlt r bon lenc by (simp add: w2 load_simps)
  show "load (heap w2) (Some a) \<noteq> None"
    using ne Bn lenc by (simp add: w2 load_simps)
  show "length (heap w2) = Suc a"
    by (simp add: w2 lenc)
qed

subsection \<open>The Hermitian loop\<close>

lemma c_div_2: "0 \<le> n \<Longrightarrow> c_div n 2 = n div 2"
  by (simp add: c_div_def)

lemma herm_step_conj:
  assumes "n < 2 * i" "i < n" "n \<le> int (length res)"
  shows "herm_step n i res = Some (res[nat i := conjugate (res ! nat (n - i))])"
proof -
  have "nat (n - i) \<noteq> nat i" using assms by linarith
  then show ?thesis using assms by (simp add: herm_step_def Let_def conjugate_def)
qed

lemma herm_steps_closed:
  assumes "n \<le> int (length res)" "\<forall>i\<in>set js. n < 2 * i \<and> i < n"
  shows "herm_steps n js res =
           Some (map (\<lambda>k. if int k \<in> set js then conjugate (res ! nat (n - int k)) else res ! k)
                   [0..<length res])"
  using assms
proof (induction js arbitrary: res)
  case Nil
  then show ?case by (simp add: map_nth)
next
  case (Cons i js)
  let ?r1 = "res[nat i := conjugate (res ! nat (n - i))]"
  have i: "n < 2 * i" "i < n" using Cons.prems by simp_all
  have st: "herm_step n i res = Some ?r1"
    using i Cons.prems(1) by (rule herm_step_conj)
  have ih: "herm_steps n js ?r1 =
      Some (map (\<lambda>k. if int k \<in> set js then conjugate (?r1 ! nat (n - int k)) else ?r1 ! k)
              [0..<length ?r1])"
    using Cons.prems by (intro Cons.IH) simp_all
  have "map (\<lambda>k. if int k \<in> set js then conjugate (?r1 ! nat (n - int k)) else ?r1 ! k)
          [0..<length ?r1] =
        map (\<lambda>k. if int k \<in> set (i # js) then conjugate (res ! nat (n - int k)) else res ! k)
          [0..<length res]"
  proof (rule nth_equalityI)
    show "length (map (\<lambda>k. if int k \<in> set js then conjugate (?r1 ! nat (n - int k)) else ?r1 ! k)
          [0..<length ?r1]) = length (map (\<lambda>k. if int k \<in> set (i # js) then conjugate (res ! nat (n - int k)) else res ! k)
          [0..<length res])" by simp
  next
    fix k assume "k < length (map (\<lambda>k. if int k \<in> set js then conjugate (?r1 ! nat (n - int k)) else ?r1 ! k)
          [0..<length ?r1])"
    then have k: "k < length res" by simp
    have rd: "int k \<in> set js \<Longrightarrow> ?r1 ! nat (n - int k) = res ! nat (n - int k)"
    proof -
      assume "int k \<in> set js"
      then have "n < 2 * int k" "int k < n" using Cons.prems(2) by auto
      then have "nat (n - int k) \<noteq> nat i" using i by linarith
      then show ?thesis by simp
    qed
    show "map (\<lambda>k. if int k \<in> set js then conjugate (?r1 ! nat (n - int k)) else ?r1 ! k)
          [0..<length ?r1] ! k =
        map (\<lambda>k. if int k \<in> set (i # js) then conjugate (res ! nat (n - int k)) else res ! k)
          [0..<length res] ! k"
    proof (cases "int k \<in> set js")
      case True
      then show ?thesis using k rd by simp
    next
      case False
      show ?thesis
      proof (cases "int k = i")
        case True
        then have "nat i = k" by simp
        then show ?thesis using k False True by simp
      next
        case ne: False
        then have "nat i \<noteq> k" using i by linarith
        then show ?thesis using k False ne by simp
      qed
    qed
  qed
  then show ?case using st ih by simp
qed

lemma herm_steps_fill:
  assumes "n \<le> int (length res)" "set js = {i..<n}" "n < 2 * i"
  shows "herm_steps n js res = Some (herm_fill n i res)"
proof -
  have "herm_steps n js res =
           Some (map (\<lambda>k. if int k \<in> set js then conjugate (res ! nat (n - int k)) else res ! k)
                   [0..<length res])"
    using assms by (intro herm_steps_closed) auto
  then show ?thesis using assms(2) by (simp add: herm_fill_def)
qed

lemma herm_fill_done: "n \<le> i \<Longrightarrow> herm_fill n i res = res"
  by (auto simp add: herm_fill_def intro!: nth_equalityI)

lemma herm_fill_step:
  assumes "n < 2 * i" "i < n" "n \<le> int (length res)"
  shows "herm_fill n (i + 1) (res[nat i := conjugate (res ! nat (n - i))]) = herm_fill n i res"
proof -
  have a: "herm_steps n [i..n - 1] res = Some (herm_fill n i res)"
    using assms by (intro herm_steps_fill) auto
  have "[i..n - 1] = i # [i + 1..n - 1]" using assms by (simp add: upto_rec1)
  then have b: "herm_steps n [i..n - 1] res =
     herm_steps n [i + 1..n - 1] (res[nat i := conjugate (res ! nat (n - i))])"
    using herm_step_conj[OF assms] by simp
  have c: "herm_steps n [i + 1..n - 1] (res[nat i := conjugate (res ! nat (n - i))]) =
     Some (herm_fill n (i + 1) (res[nat i := conjugate (res ! nat (n - i))]))"
    using assms by (intro herm_steps_fill) auto
  show ?thesis using a b c by simp
qed

lemma herm_loop_fill:
  assumes "\<not> fault w" "load (heap w) (Some a) = Some (Cpx xs)" "n \<le> int (length xs)"
    "n < 2 * i"
  shows "herm_loop (Some a) n i w = w\<lparr>heap := (heap w)[a := Cpx (herm_fill n i xs)]\<rparr>"
  using assms
proof (induction "Some a" n i w arbitrary: xs rule: herm_loop.induct)
  case (1 n i w)
  have a: "a < length (heap w)" "heap w ! a = Cpx xs"
    using load_Some_lt[OF "1.prems"(2)] by simp_all
  show ?case
  proof (cases "i < n")
    case False
    then have "herm_fill n i xs = xs" by (simp add: herm_fill_done)
    moreover have "(heap w)[a := Cpx xs] = heap w" using a by (metis list_update_id)
    ultimately show ?thesis using False by (subst herm_loop.simps) simp
  next
    case True
    let ?xs1 = "xs[nat i := conjugate (xs ! nat (n - i))]"
    let ?w1 = "w\<lparr>heap := (heap w)[a := Cpx ?xs1]\<rparr>"
    have st: "herm_step n i xs = Some ?xs1"
      using "1.prems" True by (intro herm_step_conj) simp_all
    have b: "herm_body (Some a) n i w = ?w1"
      using "1.prems" st by (simp add: herm_body_def)
    have "herm_loop (Some a) n (i + 1) (herm_body (Some a) n i w) =
            (herm_body (Some a) n i w)\<lparr>heap :=
               (heap (herm_body (Some a) n i w))[a := Cpx (herm_fill n (i + 1) ?xs1)]\<rparr>"
    proof (rule "1.hyps"[OF True])
      show "\<not> fault (herm_body (Some a) n i w)" using "1.prems" by (simp add: b)
      show "load (heap (herm_body (Some a) n i w)) (Some a) = Some (Cpx ?xs1)"
        using a by (simp add: b load_simps)
      show "n \<le> int (length ?xs1)" using "1.prems" by simp
      show "n < 2 * (i + 1)" using "1.prems" by simp
    qed
    moreover have "herm_fill n (i + 1) ?xs1 = herm_fill n i xs"
      using "1.prems" True by (intro herm_fill_step) simp_all
    ultimately show ?thesis using True b by (subst herm_loop.simps) simp
  qed
qed

lemma herm_fill_sym:
  assumes "n \<le> int (length xs)" "n < 2 * nc" "nc \<le> i" "i < n"
  shows "herm_fill n nc xs ! nat i = conjugate (herm_fill n nc xs ! nat (n - i))"
proof -
  have "nat i < length xs" "nat (n - i) < length xs" "\<not> nc \<le> n - i" "0 \<le> i"
    using assms by linarith+
  then show ?thesis using assms by (simp add: herm_fill_def)
qed

lemma herm_loop_trace [simp]: "trace (herm_loop res n i w) = trace w"
proof (induction res n i w rule: herm_loop.induct)
  case (1 res n i w)
  have "trace (herm_body res n i w) = trace w"
    by (simp add: herm_body_def crash_def split: option.splits buf.splits)
  then show ?case using 1 by (subst herm_loop.simps) simp
qed

subsection \<open>Runs of the entry points\<close>

lemma copy_into_fit_Dbl:
  assumes "k \<le> length xs"
  shows "is_dbl (fit (Dbl (replicate k None)) X)"
    and "copy_buf k (Dbl xs) (fit (Dbl (replicate k None)) X) = Some (Dbl (take k xs))"
proof -
  obtain us where us: "fit (Dbl (replicate k None)) X = Dbl us" "length us = k"
    using fit_Dbl[of "replicate k None" X] by auto
  show "is_dbl (fit (Dbl (replicate k None)) X)" by (simp add: us)
  show "copy_buf k (Dbl xs) (fit (Dbl (replicate k None)) X) = Some (Dbl (take k xs))"
    using assms us by (simp add: copy_cells_def)
qed

lemma flags_measure: "0 < c \<Longrightarrow> (FFTW_DESTROY_INPUT OR fftw_efforts c) AND FFTW_ESTIMATE = 0"
  using flags_estimate[of c] by simp

lemma cfft_r2c_scratch_exec:
  fixes w :: "'a::uminus world"
  assumes nf: "\<not> fault w" and opt: "0 < opt"
    and n: "0 \<le> n" "nat n * sizeof_double \<le> avail w"
    and data: "load (heap w) data = Some (Dbl xs)" "nat n \<le> length xs"
    and res: "load (heap w) res = Some (Cpx ys)"
  defines "P \<equiv> \<lparr>pl_kind = R2C, pl_rank = 1, pl_n = [n], pl_howmany = 1,
       pl_in = Some (length (heap w)), pl_idist = 0, pl_out = res, pl_odist = 0, pl_sign = 0,
       pl_flags = FFTW_DESTROY_INPUT OR fftw_efforts opt\<rparr>"
  shows "\<exists>w2 zs. cfft_r2c L n data res flag opt w =
            free (Some (length (heap w))) (fftw_destroy_plan P
              (if flag = 1 then herm_loop res n (c_div n 2 + 1) w2 else w2))
          \<and> \<not> fault w2
          \<and> trace w2 = trace w @ [Malloc n sizeof_double (Some (length (heap w))),
                 Plan P (Some (Dbl (replicate (nat n) None))),
                 Memcpy (Some (length (heap w))) data n sizeof_double,
                 Execute P (Some (Dbl (take (nat n) xs)))]
          \<and> load (heap w2) res = Some (Cpx zs) \<and> length zs = length ys
          \<and> load (heap w2) (Some (length (heap w))) \<noteq> None
          \<and> length (heap w2) = Suc (length (heap w))"
proof -
  let ?U = "Dbl (replicate (nat n) None) :: 'a buf"
  let ?fresh = "\<lambda>k. Dbl (replicate k None) :: 'a buf"
  have rd: "res \<noteq> data" using data res by auto
  note run = scratch_run[where fresh = ?fresh and U = ?U and p = P and L = L and el = is_dbl
      and B = "Dbl (take (nat n) xs)" and C = n and K = n and sz = sizeof_double,
      OF nf n _ _ _ _ _ res data(1) rd n(1) _ copy_into_fit_Dbl[OF data(2)]]
  have pf: "pl_flags P AND FFTW_ESTIMATE = 0" using flags_measure[OF opt] by (simp add: P_def)
  have pp: "pl_in P = Some (length (heap w))" "pl_out P = res" by (simp_all add: P_def)
  note r = run[OF refl _ pp pf]
  let ?w2 = "fftw_execute L P (memcpy_of is_dbl sizeof_double (Some (length (heap w))) data n
     (snd (fftw_mkplan L P (snd (malloc_of ?fresh sizeof_double n w)))))"
  have m: "fst (malloc_of ?fresh sizeof_double n w) = Some (length (heap w))"
    by (rule r(1)) simp_all
  obtain zs where zs: "load (heap ?w2) res = Some (Cpx zs)" "length zs = length ys"
  proof -
    have l: "load (heap ?w2) res = Some (fit (fit (Cpx ys) (snd (planner L P ?U (Cpx ys))))
      (snd (executor L P (Dbl (take (nat n) xs)) (fit (Cpx ys) (snd (planner L P ?U (Cpx ys)))))))"
      by (rule r(4)) simp_all
    obtain y1 where y1: "fit (Cpx ys) (snd (planner L P ?U (Cpx ys))) = Cpx y1" "length y1 = length ys"
      using fit_Cpx by blast
    obtain y2 where y2: "fit (Cpx y1) (snd (executor L P (Dbl (take (nat n) xs)) (Cpx y1))) = Cpx y2"
      "length y2 = length y1"
      using fit_Cpx by blast
    show ?thesis using that[of y2] l y1 y2 by simp
  qed
  have eq: "cfft_r2c L n data res flag opt w =
            free (Some (length (heap w))) (fftw_destroy_plan P
              (if flag = 1 then herm_loop res n (c_div n 2 + 1) ?w2 else ?w2))"
    using opt m
    by (simp add: cfft_r2c_def Let_def split_def efforts_estimate fftw_plan_dft_r2c_1d_def
        malloc_double_def memcpy_double_def P_def)
  have "\<not> fault ?w2" by (rule r(2)) simp_all
  moreover have "trace ?w2 = trace w @ [Malloc n sizeof_double (Some (length (heap w))),
                 Plan P (Some (Dbl (replicate (nat n) None))),
                 Memcpy (Some (length (heap w))) data n sizeof_double,
                 Execute P (Some (Dbl (take (nat n) xs)))]" by (rule r(3)) simp_all
  moreover have "load (heap ?w2) (Some (length (heap w))) \<noteq> None" by (rule r(5)) simp_all
  moreover have "length (heap ?w2) = Suc (length (heap w))" by (rule r(6)) simp_all
  ultimately show ?thesis using eq zs by blast
qed

section \<open>The effort-level mapper\<close>

text \<open>
  C8. The effort-level mapper is a total function of the integer code: a code of at most 0
  gives fastest-guess (FFTW_ESTIMATE), 1 gives measure, 2 gives patient, and every other
  code gives exhaustive. The four levels are distinct flag values, so the mapping is exact.
\<close>

theorem fftw_efforts_mapping:
  "fftw_efforts c =
     (if c \<le> 0 then FFTW_ESTIMATE else if c = 1 then FFTW_MEASURE
      else if c = 2 then FFTW_PATIENT else FFTW_EXHAUSTIVE)
   \<and> distinct [FFTW_ESTIMATE, FFTW_MEASURE, FFTW_PATIENT, FFTW_EXHAUSTIVE]"
  by (simp add: fftw_efforts_def fftw_consts)

section \<open>The direction flag\<close>

lemma cfft_c2c_sign:
  assumes "\<not> fault w"
  shows "map pl_sign (plans (new_events w (cfft_c2c L n data res inverse' w))) =
           [if inverse' = 1 then FFTW_BACKWARD else FFTW_FORWARD]
       \<and> map pl_sign (runs (new_events w (cfft_c2c L n data res inverse' w))) =
           [if inverse' = 1 then FFTW_BACKWARD else FFTW_FORWARD]"
  using assms flags_const_estimate
  by (simp add: cfft_c2c_def fftw_plan_dft_1d_def Let_def split_def new_events_def
      destroy_trace execute_trace mkplan_trace mkplan_estimate_fault)

lemma cfft_c2c_2d_sign:
  assumes "\<not> fault w"
  shows "map pl_sign (plans (new_events w (cfft_c2c_2d L nx ny data res inverse' w))) =
           [if inverse' = 1 then FFTW_BACKWARD else FFTW_FORWARD]
       \<and> map pl_sign (runs (new_events w (cfft_c2c_2d L nx ny data res inverse' w))) =
           [if inverse' = 1 then FFTW_BACKWARD else FFTW_FORWARD]"
  using assms flags_const_estimate
  by (simp add: cfft_c2c_2d_def fftw_plan_dft_2d_def Let_def split_def new_events_def
      destroy_trace execute_trace mkplan_trace mkplan_estimate_fault)

lemma cfft_c2c_3d_sign:
  assumes "\<not> fault w"
  shows "map pl_sign (plans (new_events w (cfft_c2c_3d L nx ny nz data res inverse' w))) =
           [if inverse' = 1 then FFTW_BACKWARD else FFTW_FORWARD]
       \<and> map pl_sign (runs (new_events w (cfft_c2c_3d L nx ny nz data res inverse' w))) =
           [if inverse' = 1 then FFTW_BACKWARD else FFTW_FORWARD]"
  using assms flags_const_estimate
  by (simp add: cfft_c2c_3d_def fftw_plan_dft_3d_def Let_def split_def new_events_def
      destroy_trace execute_trace mkplan_trace mkplan_estimate_fault)

lemma cfft_c2c_xd_sign:
  assumes "\<not> fault w"
  shows "map pl_sign (plans (new_events w (cfft_c2c_xd L r ns data res inverse' w))) =
           [if inverse' = 1 then FFTW_BACKWARD else FFTW_FORWARD]
       \<and> map pl_sign (runs (new_events w (cfft_c2c_xd L r ns data res inverse' w))) =
           [if inverse' = 1 then FFTW_BACKWARD else FFTW_FORWARD]"
  using assms flags_const_estimate
  by (simp add: cfft_c2c_xd_def fftw_plan_dft_def Let_def split_def new_events_def
      destroy_trace execute_trace mkplan_trace mkplan_estimate_fault)

lemma cmvfft_c2c_sign:
  assumes "\<not> fault w" "c_mul n m = Some k"
  shows "map pl_sign (plans (new_events w (cmvfft_c2c L n m data res inverse' opt w))) =
           [if inverse' = 1 then FFTW_BACKWARD else FFTW_FORWARD]
       \<and> list_all (\<lambda>p. pl_sign p = (if inverse' = 1 then FFTW_BACKWARD else FFTW_FORWARD))
           (runs (new_events w (cmvfft_c2c L n m data res inverse' opt w)))"
  using assms
  by (simp add: cmvfft_c2c_def fftw_plan_many_dft_def Let_def split_def new_events_def
      destroy_trace execute_trace mkplan_trace free_trace memcpy_of_trace memcpy_complex_def
      malloc_complex_def malloc_of_trace fault_int_mul)

lemma cmvfft_c2c_sign':
  assumes "\<not> fault w" "opt \<le> 0 \<or> c_mul n m \<noteq> None"
  shows "map pl_sign (plans (new_events w (cmvfft_c2c L n m data res inverse' opt w))) =
           [if inverse' = 1 then FFTW_BACKWARD else FFTW_FORWARD]
       \<and> list_all (\<lambda>p. pl_sign p = (if inverse' = 1 then FFTW_BACKWARD else FFTW_FORWARD))
           (runs (new_events w (cmvfft_c2c L n m data res inverse' opt w)))"
proof (cases "opt \<le> 0")
  case True
  then show ?thesis using assms(1)
    by (simp add: cmvfft_c2c_def fftw_plan_many_dft_def Let_def split_def new_events_def
      destroy_trace execute_trace mkplan_trace efforts_estimate)
next
  case False
  then obtain k where "c_mul n m = Some k" using assms(2) by auto
  then show ?thesis using assms(1) by (rule cmvfft_c2c_sign[rotated])
qed

text \<open>
  C9. Every complex-to-complex entry point (1-D, 2-D, 3-D, N-D and batched) creates exactly
  one plan, and the sign of that plan is chosen by the direction flag: the flag value 1
  (true) gives FFTW_BACKWARD, every other value (false is 0) gives FFTW_FORWARD, and the
  two signs differ. The plan that is executed carries the same sign. The batched entry
  point computes \<open>n * m\<close> in C int before planning when the effort is above
  fastest-guess, so the product has to be representable there; its run can end before
  execution, in the planner or in memcpy.
\<close>

theorem direction_flag_selects_sign:
  assumes "\<not> fault w" and "fftwplanopt \<le> 0 \<or> c_mul n m \<noteq> None"
  shows "(map pl_sign (plans (new_events w (cfft_c2c L n data res inverse' w))) =
           [if inverse' = 1 then FFTW_BACKWARD else FFTW_FORWARD]
       \<and> map pl_sign (runs (new_events w (cfft_c2c L n data res inverse' w))) =
           [if inverse' = 1 then FFTW_BACKWARD else FFTW_FORWARD])
       \<and> (map pl_sign (plans (new_events w (cfft_c2c_2d L nx ny data res inverse' w))) =
           [if inverse' = 1 then FFTW_BACKWARD else FFTW_FORWARD]
       \<and> map pl_sign (runs (new_events w (cfft_c2c_2d L nx ny data res inverse' w))) =
           [if inverse' = 1 then FFTW_BACKWARD else FFTW_FORWARD])
       \<and> (map pl_sign (plans (new_events w (cfft_c2c_3d L nx ny nz data res inverse' w))) =
           [if inverse' = 1 then FFTW_BACKWARD else FFTW_FORWARD]
       \<and> map pl_sign (runs (new_events w (cfft_c2c_3d L nx ny nz data res inverse' w))) =
           [if inverse' = 1 then FFTW_BACKWARD else FFTW_FORWARD])
       \<and> (map pl_sign (plans (new_events w (cfft_c2c_xd L r ns data res inverse' w))) =
           [if inverse' = 1 then FFTW_BACKWARD else FFTW_FORWARD]
       \<and> map pl_sign (runs (new_events w (cfft_c2c_xd L r ns data res inverse' w))) =
           [if inverse' = 1 then FFTW_BACKWARD else FFTW_FORWARD])
       \<and> (map pl_sign (plans (new_events w
             (cmvfft_c2c L n m data res inverse' fftwplanopt w))) =
           [if inverse' = 1 then FFTW_BACKWARD else FFTW_FORWARD]
       \<and> list_all (\<lambda>p. pl_sign p = (if inverse' = 1 then FFTW_BACKWARD else FFTW_FORWARD))
           (runs (new_events w (cmvfft_c2c L n m data res inverse' fftwplanopt w))))
       \<and> FFTW_BACKWARD \<noteq> FFTW_FORWARD"
proof -
  have "FFTW_BACKWARD \<noteq> FFTW_FORWARD" by (simp add: fftw_consts)
  then show ?thesis
    using cfft_c2c_sign[OF assms(1), of L n data res inverse']
      cfft_c2c_2d_sign[OF assms(1), of L nx ny data res inverse']
      cfft_c2c_3d_sign[OF assms(1), of L nx ny nz data res inverse']
      cfft_c2c_xd_sign[OF assms(1), of L r ns data res inverse']
      cmvfft_c2c_sign'[OF assms, of L data res inverse']
    by (intro conjI) (erule conjunct1 conjunct2 | assumption)+
qed

theorem direction_flag_selects_sign_witness:
  "\<not> fault world_c2c \<and> c_mul 1 2 \<noteq> None
   \<and> map pl_sign (plans (new_events world_c2c
         (cfft_c2c fftw_len1 1 (Some 0) (Some 1) 1 world_c2c))) = [FFTW_BACKWARD]
   \<and> map pl_sign (runs (new_events world_c2c
         (cfft_c2c fftw_len1 1 (Some 0) (Some 1) 1 world_c2c))) = [FFTW_BACKWARD]
   \<and> map pl_sign (plans (new_events world_c2c
         (cfft_c2c fftw_len1 1 (Some 0) (Some 1) 0 world_c2c))) = [FFTW_FORWARD]
   \<and> map pl_sign (plans (new_events world_c2c
         (cmvfft_c2c fftw_len1 1 2 (Some 0) (Some 1) 1 1 world_c2c))) = [FFTW_BACKWARD]
   \<and> map pl_sign (plans (new_events world_c2c
         (cmvfft_c2c fftw_len1 1 2 (Some 0) (Some 1) 0 1 world_c2c))) = [FFTW_FORWARD]"
proof -
  have h: "\<not> fault world_c2c" "(1::int) \<le> 0 \<or> c_mul 1 2 \<noteq> None"
    by (simp_all add: world_c2c_def c_mul_def)
  show ?thesis
    using h
      direction_flag_selects_sign[OF h, where L = fftw_len1 and data = "Some 0"
        and res = "Some 1" and inverse' = 1]
      direction_flag_selects_sign[OF h, where L = fftw_len1 and data = "Some 0"
        and res = "Some 1" and inverse' = 0]
    by simp
qed

section \<open>The caller's input under the scratch path\<close>

text \<open>
  C5. With an effort above fastest-guess, cfft_r2c and cmvfft_r2c leave the caller's input
  array as it was: the planner and the execution are given the scratch array and the
  output array, memcpy writes the scratch array, and the loop writes the output array.
  This holds for every behaviour of the library and for every way the call may end. The
  input array is an array of double and the output an array of fftw_complex, hence two
  different arrays.
\<close>

theorem scratch_keeps_caller_input:
  assumes "0 < fftwplanopt" and "d < length (heap w)" and "res \<noteq> Some d"
  shows "heap (cfft_r2c L n (Some d) res retHermConj fftwplanopt w) ! d = heap w ! d
       \<and> heap (cmvfft_r2c L n m (Some d) res fftwplanopt w) ! d = heap w ! d"
  using assms by (simp add: cfft_r2c_keeps_input cmvfft_r2c_keeps_input)

theorem scratch_keeps_caller_input_witness:
  "(0::int) < 1 \<and> 0 < length (heap world_r2c) \<and> Some (1::nat) \<noteq> Some 0
   \<and> heap (cfft_r2c fftw_len1 1 (Some 0) (Some 1) 0 1 world_r2c) ! 0 = Dbl [Some 5, Some 7]
   \<and> heap (cmvfft_r2c fftw_len1 1 2 (Some 0) (Some 1) 1 world_r2c) ! 0 = Dbl [Some 5, Some 7]"
proof -
  have h: "(0::int) < 1" "0 < length (heap world_r2c)" "Some (1::nat) \<noteq> Some 0"
    by (simp_all add: world_r2c_def)
  show ?thesis
    using h scratch_keeps_caller_input[OF h, where L = fftw_len1 and n = 1
        and retHermConj = 0 and m = 2]
    by (simp add: world_r2c_def)
qed

section \<open>Hermitian reconstruction\<close>

text \<open>
  The definitions that a run on a concrete world unfolds, shared by the evaluations below.
\<close>

lemmas run_defs =
  Let_def split_def fftw_efforts_def fftw_consts c_div_def c_mul_def int_mul_def
  malloc_double_def malloc_complex_def malloc_of_def memcpy_double_def memcpy_complex_def
  memcpy_of_def copy_cells_def fftw_mkplan_def fftw_execute_def fftw_destroy_plan_def free_def
  touch_def emit_def crash_def load_def sizeof_double_def sizeof_fftw_complex_def

lemma free_ok:
  assumes "\<not> fault w" "load (heap w) (Some a) \<noteq> None"
  shows "free (Some a) w = w\<lparr>heap := (heap w)[a := Freed], trace := trace w @ [Free (Some a)]\<rparr>"
  using assms by (auto simp add: free_def emit_def)

lemma destroy_ok:
  "\<not> fault w \<Longrightarrow> fftw_destroy_plan p w = w\<lparr>trace := trace w @ [Destroy p]\<rparr>"
  by (simp add: fftw_destroy_plan_def emit_def)

lemma nc_above_half: "0 \<le> n \<Longrightarrow> n < 2 * (c_div n 2 + 1)"
  by (simp add: c_div_2)

lemma length_herm_fill [simp]: "length (herm_fill n i xs) = length xs"
  by (simp add: herm_fill_def)

lemma cfft_r2c_estimate_exec:
  fixes w :: "'a::uminus world" and n :: int
  assumes nf: "\<not> fault w" and opt: "opt \<le> 0"
    and data: "load (heap w) data = Some bs"
    and res: "load (heap w) res = Some (Cpx ys)"
  defines "P \<equiv> \<lparr>pl_kind = R2C, pl_rank = 1, pl_n = [n], pl_howmany = 1,
       pl_in = data, pl_idist = 0, pl_out = res, pl_odist = 0, pl_sign = 0,
       pl_flags = FFTW_DESTROY_INPUT OR fftw_efforts opt\<rparr>"
  shows "\<exists>w2 zs. cfft_r2c L n data res flag opt w =
            fftw_destroy_plan P (if flag = 1 then herm_loop res n (c_div n 2 + 1) w2 else w2)
          \<and> \<not> fault w2
          \<and> load (heap w2) res = Some (Cpx zs) \<and> length zs = length ys"
proof -
  obtain r where r: "res = Some r" using res by (cases res) (simp_all add: load_def)
  obtain d where d: "data = Some d" using data by (cases data) (simp_all add: load_def)
  have rlt: "r < length (heap w)" using res r load_Some_lt[of "heap w" r] by simp
  let ?w1 = "snd (fftw_mkplan L P w)"
  let ?w2 = "fftw_execute L P ?w1"
  have pf: "pl_flags P AND FFTW_ESTIMATE \<noteq> 0" using flags_estimate[of opt] opt by (simp add: P_def)
  have pp: "pl_in P = Some d" "pl_out P = Some r" using r d by (simp_all add: P_def)
  have w1: "?w1 = w\<lparr>trace := trace w @ [Plan P (load (heap w) data)]\<rparr>"
    using nf pf pp d by (simp add: fftw_mkplan_def Let_def emit_def)
  let ?X = "executor L P bs (Cpx ys)"
  have w2: "?w2 = ?w1\<lparr>heap := ((heap w)[d := fit bs (fst ?X)])[r := fit (Cpx ys) (snd ?X)],
                trace := trace ?w1 @ [Execute P (Some bs)]\<rparr>"
    using nf data res r d pp
    by (simp add: w1 fftw_execute_def emit_def touch_def)
  obtain zs where zs: "fit (Cpx ys) (snd ?X) = Cpx zs" "length zs = length ys"
    using fit_Cpx by blast
  have l: "load (heap ?w2) res = Some (Cpx zs)"
    using rlt zs by (subst w2) (simp add: r load_simps)
  have nf2: "\<not> fault ?w2" using nf by (subst w2) (simp add: w1)
  have eq: "cfft_r2c L n data res flag opt w =
            fftw_destroy_plan P (if flag = 1 then herm_loop res n (c_div n 2 + 1) ?w2 else ?w2)"
    using opt
    by (simp add: cfft_r2c_def Let_def split_def efforts_estimate fftw_plan_dft_r2c_1d_def P_def)
  show ?thesis using eq nf2 l zs(2) by blast
qed

text \<open>
  C4. A call of cfft_r2c with the reconstruction flag set (retHermConj = 1), a length
  \<open>n \<ge> 0\<close>, an input array of at least \<open>n\<close> doubles, an output array of at least \<open>n\<close>
  complex bins and, when the effort is above fastest-guess, enough memory for the scratch
  array, returns without fault, and every bin \<open>i\<close> of the output with
  \<open>n/2 + 1 \<le> i < n\<close> is the conjugate of bin \<open>n - i\<close>: the real part copied, the
  imaginary part negated. This holds on both effort paths and for every library behaviour.
\<close>

theorem cfft_r2c_hermitian:
  fixes w :: "'a::uminus world"
  assumes nf: "\<not> fault w" and flag: "retHermConj = 1" and n0: "0 \<le> n"
    and data: "load (heap w) data = Some (Dbl xs)" "nat n \<le> length xs"
    and res: "load (heap w) res = Some (Cpx ys)" "nat n \<le> length ys"
    and mem: "fftwplanopt \<le> 0 \<or> nat n * sizeof_double \<le> avail w"
  shows "\<exists>zs. \<not> fault (cfft_r2c L n data res retHermConj fftwplanopt w)
          \<and> load (heap (cfft_r2c L n data res retHermConj fftwplanopt w)) res = Some (Cpx zs)
          \<and> length zs = length ys
          \<and> (\<forall>i. c_div n 2 + 1 \<le> i \<and> i < n \<longrightarrow> zs ! nat i = conjugate (zs ! nat (n - i)))"
proof -
  let ?nc = "c_div n 2 + 1"
  let ?call = "cfft_r2c L n data res retHermConj fftwplanopt w"
  obtain r where r: "res = Some r" using res by (cases res) (simp_all add: load_def)
  have rlt: "r < length (heap w)" using res r load_Some_lt[of "heap w" r] by simp
  have half: "n < 2 * ?nc" using n0 by (rule nc_above_half)
  have fin: "\<exists>zs. \<not> fault ?call \<and> load (heap ?call) res = Some (Cpx zs) \<and> length zs = length ys
      \<and> (\<exists>zs0. zs = herm_fill n ?nc zs0 \<and> length zs0 = length ys)"
  proof (cases "fftwplanopt \<le> 0")
    case True
    obtain w2 zs0 where e: "?call = fftw_destroy_plan \<lparr>pl_kind = R2C, pl_rank = 1, pl_n = [n],
           pl_howmany = 1, pl_in = data, pl_idist = 0, pl_out = res, pl_odist = 0, pl_sign = 0,
           pl_flags = FFTW_DESTROY_INPUT OR fftw_efforts fftwplanopt\<rparr>
            (if retHermConj = 1 then herm_loop res n ?nc w2 else w2)"
      and nf2: "\<not> fault w2" and l2: "load (heap w2) res = Some (Cpx zs0)"
      and len: "length zs0 = length ys"
      using cfft_r2c_estimate_exec[OF nf True data(1) res(1), of L n retHermConj] by blast
    have lp: "herm_loop (Some r) n ?nc w2 = w2\<lparr>heap := (heap w2)[r := Cpx (herm_fill n ?nc zs0)]\<rparr>"
      using nf2 l2 res(2) len half r by (intro herm_loop_fill) simp_all
    have r2: "r < length (heap w2)" using l2 r load_Some_lt[of "heap w2" r] by simp
    show ?thesis using e nf2 lp r r2 len flag
      by (intro exI[of _ "herm_fill n ?nc zs0"] conjI exI[of _ zs0])
         (simp_all add: destroy_ok load_simps)
  next
    case False
    then have opt: "0 < fftwplanopt" and m: "nat n * sizeof_double \<le> avail w" using mem by simp_all
    obtain w2 zs0 where e: "?call = free (Some (length (heap w)))
           (fftw_destroy_plan \<lparr>pl_kind = R2C, pl_rank = 1, pl_n = [n],
             pl_howmany = 1, pl_in = Some (length (heap w)), pl_idist = 0, pl_out = res,
             pl_odist = 0, pl_sign = 0,
             pl_flags = FFTW_DESTROY_INPUT OR fftw_efforts fftwplanopt\<rparr>
            (if retHermConj = 1 then herm_loop res n ?nc w2 else w2))"
      and nf2: "\<not> fault w2" and l2: "load (heap w2) res = Some (Cpx zs0)"
      and len: "length zs0 = length ys"
      and la: "load (heap w2) (Some (length (heap w))) \<noteq> None"
      using cfft_r2c_scratch_exec[OF nf opt n0 m data res(1), of L retHermConj] by blast
    have lp: "herm_loop (Some r) n ?nc w2 = w2\<lparr>heap := (heap w2)[r := Cpx (herm_fill n ?nc zs0)]\<rparr>"
      using nf2 l2 res(2) len half r by (intro herm_loop_fill) simp_all
    have r2: "r < length (heap w2)" using l2 r load_Some_lt[of "heap w2" r] by simp
    have ne: "r \<noteq> length (heap w)" using rlt by simp
    show ?thesis using e nf2 lp r r2 len flag la ne
      by (intro exI[of _ "herm_fill n ?nc zs0"] conjI exI[of _ zs0])
         (simp_all add: destroy_ok free_ok load_simps)
  qed
  then obtain zs zs0 where z: "\<not> fault ?call" "load (heap ?call) res = Some (Cpx zs)"
    "length zs = length ys" "zs = herm_fill n ?nc zs0" "length zs0 = length ys" by blast
  have "\<forall>i. ?nc \<le> i \<and> i < n \<longrightarrow> zs ! nat i = conjugate (zs ! nat (n - i))"
  proof (intro allI impI)
    fix i assume i: "?nc \<le> i \<and> i < n"
    have "n \<le> int (length zs0)" using res(2) z(5) by simp
    then show "zs ! nat i = conjugate (zs ! nat (n - i))"
      unfolding z(4) using half i by (intro herm_fill_sym) simp_all
  qed
  then show ?thesis using z(1,2,3) by blast
qed

theorem cfft_r2c_hermitian_witness:
  "\<not> fault world_r2c4
   \<and> load (heap world_r2c4) (Some 0) = Some (Dbl [Some 1, Some 2, Some 3, Some 4])
   \<and> load (heap world_r2c4) (Some 1)
       = Some (Cpx [(None, None), (None, None), (None, None), (None, None)])
   \<and> nat 4 * sizeof_double \<le> avail world_r2c4
   \<and> \<not> fault (cfft_r2c (fftw_answer spectrum_1234) 4 (Some 0) (Some 1) 1 1 world_r2c4)
   \<and> load (heap (cfft_r2c (fftw_answer spectrum_1234) 4 (Some 0) (Some 1) 1 1 world_r2c4))
         (Some 1)
       = Some (Cpx [(Some 10, Some 0), (Some (- 2), Some 2), (Some (- 2), Some 0),
                    (Some (- 2), Some (- 2))])
   \<and> (Some (- 2), Some (- 2)) = conjugate (Some (- 2 :: int), Some 2)"
proof -
  let ?call = "cfft_r2c (fftw_answer spectrum_1234) 4 (Some 0) (Some 1) 1 1 world_r2c4"
  have h1: "\<not> fault world_r2c4" by (simp add: world_r2c4_def)
  have h2: "load (heap world_r2c4) (Some 0) = Some (Dbl [Some 1, Some 2, Some 3, Some 4])"
    by (simp add: load_def world_r2c4_def)
  have h3: "load (heap world_r2c4) (Some 1)
       = Some (Cpx [(None, None), (None, None), (None, None), (None, None)])"
    by (simp add: load_def world_r2c4_def)
  have h4: "(1::int) \<le> 0 \<or> nat 4 * sizeof_double \<le> avail world_r2c4"
    by (simp add: sizeof_double_def world_r2c4_def)
  obtain zs where z: "\<not> fault ?call" "load (heap ?call) (Some 1) = Some (Cpx zs)"
    "\<forall>i. c_div 4 2 + 1 \<le> i \<and> i < 4 \<longrightarrow> zs ! nat i = conjugate (zs ! nat (4 - i))"
    using cfft_r2c_hermitian[OF h1 refl _ h2 _ h3 _ h4, of "fftw_answer spectrum_1234"] by auto
  have ev: "load (heap ?call) (Some 1)
       = Some (Cpx [(Some 10, Some 0), (Some (- 2), Some 2), (Some (- 2), Some 0),
                    (Some (- 2), Some (- 2))])"
    by (simp add: run_defs cfft_r2c_def fftw_plan_dft_r2c_1d_def herm_loop.simps herm_body_def
      herm_step_def conjugate_def neg_def fftw_answer_def world_r2c4_def spectrum_1234_def)
  have "c_div 4 2 + 1 \<le> 3 \<and> (3::int) < 4" by (simp add: c_div_def)
  then have "zs ! nat 3 = conjugate (zs ! nat (4 - 3))" using z(3) by blast
  moreover have "zs = [(Some 10, Some 0), (Some (- 2), Some 2), (Some (- 2), Some 0),
                    (Some (- 2), Some (- 2))]" using z(2) ev by simp
  ultimately have "(Some (- 2), Some (- 2)) = conjugate (Some (- 2 :: int), Some 2)" by simp
  then show ?thesis using z(1) ev h1 h2 h3 h4 by simp
qed

text \<open>
  C10. For \<open>n \<ge> 1\<close> and an output array of at least \<open>n\<close> bins, every index \<open>i\<close> of the
  loop (\<open>n/2 + 1 \<le> i < n\<close>) reads the mirrored bin \<open>n - i\<close>, which lies in \<open>[1, n/2]\<close>
  and is not an index the loop writes; both accesses are inside the array. Hence running
  the loop body over the loop's indices in any order \<open>js\<close> gives the same array, the
  simultaneous assignment \<open>herm_fill\<close>, and so does the loop of cfft_r2c itself.
\<close>

theorem herm_loop_reads_lower_half:
  fixes res :: "('a::uminus option \<times> 'a option) list"
  assumes n: "1 \<le> n" and len: "n \<le> int (length res)"
    and js: "set js = {c_div n 2 + 1..<n}"
  shows "(\<forall>i\<in>set js. 1 \<le> n - i \<and> n - i \<le> c_div n 2 \<and> n - i \<notin> set js
            \<and> 0 \<le> i \<and> i < int (length res) \<and> n - i < int (length res))
       \<and> herm_steps n js res = Some (herm_fill n (c_div n 2 + 1) res)
       \<and> (\<forall>w a. \<not> fault w \<and> load (heap w) (Some a) = Some (Cpx res) \<longrightarrow>
             herm_loop (Some a) n (c_div n 2 + 1) w =
               w\<lparr>heap := (heap w)[a := Cpx (herm_fill n (c_div n 2 + 1) res)]\<rparr>)"
proof -
  have n0: "0 \<le> n" using n by simp
  have cd: "c_div n 2 = n div 2" using n0 by (rule c_div_2)
  have half: "n < 2 * (c_div n 2 + 1)" using n0 by (rule nc_above_half)
  have idx: "\<forall>i\<in>set js. 1 \<le> n - i \<and> n - i \<le> c_div n 2 \<and> n - i \<notin> set js
            \<and> 0 \<le> i \<and> i < int (length res) \<and> n - i < int (length res)"
  proof
    fix i assume "i \<in> set js"
    then have i: "n div 2 + 1 \<le> i" "i < n" using js cd by simp_all
    have "n - i \<le> n div 2" using i by linarith
    moreover have "n - i \<notin> set js" using js cd i half by (simp; linarith)
    ultimately show "1 \<le> n - i \<and> n - i \<le> c_div n 2 \<and> n - i \<notin> set js
            \<and> 0 \<le> i \<and> i < int (length res) \<and> n - i < int (length res)"
      using i len cd n by simp
  qed
  have st: "herm_steps n js res = Some (herm_fill n (c_div n 2 + 1) res)"
    using len js half by (rule herm_steps_fill)
  have lp: "\<forall>w a. \<not> fault w \<and> load (heap w) (Some a) = Some (Cpx res) \<longrightarrow>
             herm_loop (Some a) n (c_div n 2 + 1) w =
               w\<lparr>heap := (heap w)[a := Cpx (herm_fill n (c_div n 2 + 1) res)]\<rparr>"
    using len half by (auto intro: herm_loop_fill)
  show ?thesis using idx st lp by blast
qed

theorem herm_loop_reads_lower_half_witness:
  "(1::int) \<le> 5
   \<and> (5::int) \<le> int (length ([(Some 1, Some 0), (Some 2, Some 3), (Some 4, Some 5),
         (None, None), (None, None)] :: (int option \<times> int option) list))
   \<and> set [4, 3] = {c_div 5 2 + 1..<5}
   \<and> herm_steps 5 [4, 3]
        [(Some (1::int), Some 0), (Some 2, Some 3), (Some 4, Some 5), (None, None), (None, None)]
      = Some (herm_fill 5 (c_div 5 2 + 1)
        [(Some 1, Some 0), (Some 2, Some 3), (Some 4, Some 5), (None, None), (None, None)])
   \<and> herm_steps 5 [3, 4]
        [(Some (1::int), Some 0), (Some 2, Some 3), (Some 4, Some 5), (None, None), (None, None)]
      = Some [(Some 1, Some 0), (Some 2, Some 3), (Some 4, Some 5), (Some 4, Some (- 5)),
              (Some 2, Some (- 3))]"
proof -
  let ?res = "[(Some 1, Some 0), (Some 2, Some 3), (Some 4, Some 5), (None, None),
    (None, None)] :: (int option \<times> int option) list"
  have s: "{c_div 5 2 + 1..<5} = {3, 4::int}" by (auto simp add: c_div_def)
  have h: "(1::int) \<le> 5" "(5::int) \<le> int (length ?res)" "set [4, 3] = {c_div 5 2 + 1..<5}"
    "set [3, 4] = {c_div 5 2 + 1..<5}"
    using s by auto
  have a: "herm_steps 5 [4, 3] ?res = Some (herm_fill 5 (c_div 5 2 + 1) ?res)"
    using herm_loop_reads_lower_half[OF h(1,2,3)] by blast
  have b: "herm_steps 5 [3, 4] ?res = Some (herm_fill 5 (c_div 5 2 + 1) ?res)"
    using herm_loop_reads_lower_half[OF h(1,2,4)] by blast
  have c: "herm_fill 5 (c_div 5 2 + 1) ?res =
     [(Some 1, Some 0), (Some 2, Some 3), (Some 4, Some 5), (Some 4, Some (- 5)),
              (Some 2, Some (- 3))]"
    by (simp add: herm_fill_def c_div_def conjugate_def neg_def upt_rec[of _ "Suc _"] numeral_eq_Suc)
  show ?thesis using h a b c by simp
qed

section \<open>The batched complex-to-real transform\<close>

lemma copy_into_fit_Cpx:
  assumes "k \<le> length xs" "k \<le> K"
  shows "\<exists>us. fit (Cpx (replicate K (None, None))) X = Cpx us \<and> length us = K
      \<and> is_cpx (fit (Cpx (replicate K (None, None))) X)
      \<and> copy_buf k (Cpx xs) (fit (Cpx (replicate K (None, None))) X)
          = Some (Cpx (take k xs @ drop k us))"
proof -
  obtain us where us: "fit (Cpx (replicate K (None, None))) X = Cpx us" "length us = K"
    using fit_Cpx[of "replicate K (None, None)" X] by auto
  show ?thesis using assms us by (simp add: copy_cells_def)
qed

lemma c_mul_Some: "c_mul a b = Some k \<Longrightarrow> k = a * b"
  by (simp add: c_mul_def split: if_splits)

lemma tail_trace:
  assumes "\<not> fault w2" "load (heap w2) (Some a) \<noteq> None"
  shows "trace (free (Some a) (fftw_destroy_plan p w2)) = trace w2 @ [Destroy p, Free (Some a)]"
    and "\<not> fault (free (Some a) (fftw_destroy_plan p w2))"
  using assms by (simp_all add: destroy_ok free_ok)

lemma cmvfft_c2r_scratch_run:
  fixes w :: "'a::uminus world"
  assumes nf: "\<not> fault w" and opt: "0 < opt"
    and n: "0 \<le> n" "1 \<le> m" and cm: "c_mul n m = Some k"
    and mem: "nat k * sizeof_fftw_complex \<le> avail w"
    and data: "load (heap w) data = Some (Cpx xs)" "nat n \<le> length xs"
    and res: "load (heap w) res = Some bo" "res \<noteq> data"
  defines "P \<equiv> \<lparr>pl_kind = C2R, pl_rank = 1, pl_n = [n], pl_howmany = m,
       pl_in = Some (length (heap w)), pl_idist = c_div n 2 + 1, pl_out = res, pl_odist = n,
       pl_sign = 0, pl_flags = FFTW_DESTROY_INPUT OR fftw_efforts opt\<rparr>"
  defines "U \<equiv> Cpx (replicate (nat k) (None, None))"
  shows "\<exists>us. fit U (fst (planner L P U bo)) = Cpx us \<and> length us = nat k
          \<and> new_events w (cmvfft_c2r L n m data res opt w) =
              [Malloc k sizeof_fftw_complex (Some (length (heap w))),
               Plan P (Some U),
               Memcpy (Some (length (heap w))) data n sizeof_fftw_complex,
               Execute P (Some (Cpx (take (nat n) xs @ drop (nat n) us))),
               Destroy P, Free (Some (length (heap w)))]
          \<and> \<not> fault (cmvfft_c2r L n m data res opt w)"
proof -
  let ?fresh = "\<lambda>j. Cpx (replicate j (None, None)) :: 'a buf"
  have k: "k = n * m" using cm by (rule c_mul_Some)
  have k0: "0 \<le> k" "nat n \<le> nat k" using n k by (simp_all add: mult_le_cancel_left1 nat_le_eq_zle)
  obtain us where us: "fit U (fst (planner L P U bo)) = Cpx us" "length us = nat k"
    "is_cpx (fit U (fst (planner L P U bo)))"
    "copy_buf (nat n) (Cpx xs) (fit U (fst (planner L P U bo)))
          = Some (Cpx (take (nat n) xs @ drop (nat n) us))"
    using copy_into_fit_Cpx[OF data(2) k0(2)] unfolding U_def by blast
  have pf: "pl_flags P AND FFTW_ESTIMATE = 0" using flags_measure[OF opt] by (simp add: P_def)
  have pp: "pl_in P = Some (length (heap w))" "pl_out P = res" by (simp_all add: P_def)
  have Un: "?fresh (nat k) = U" "U \<noteq> Freed" by (simp_all add: U_def)
  note r = scratch_run[where fresh = ?fresh and L = L and el = is_cpx and sz = sizeof_fftw_complex,
      OF nf k0(1) mem Un pp pf res(1) data(1) res(2) n(1) _ us(3) us(4)]
  let ?w2 = "fftw_execute L P (memcpy_of is_cpx sizeof_fftw_complex (Some (length (heap w))) data n
     (snd (fftw_mkplan L P (snd (malloc_of ?fresh sizeof_fftw_complex k w)))))"
  have m: "fst (malloc_of ?fresh sizeof_fftw_complex k w) = Some (length (heap w))"
    by (rule r(1)) simp
  have eq: "cmvfft_c2r L n m data res opt w =
            free (Some (length (heap w))) (fftw_destroy_plan P ?w2)"
    using opt m nf cm
    by (simp add: cmvfft_c2r_def Let_def split_def efforts_estimate fftw_plan_many_dft_c2r_def
        malloc_complex_def memcpy_complex_def P_def fault_int_mul)
  have nf2: "\<not> fault ?w2" by (rule r(2)) simp
  have tr: "trace ?w2 = trace w @ [Malloc k sizeof_fftw_complex (Some (length (heap w))),
               Plan P (Some U), Memcpy (Some (length (heap w))) data n sizeof_fftw_complex,
               Execute P (Some (Cpx (take (nat n) xs @ drop (nat n) us)))]"
    by (rule r(3)) simp
  have la: "load (heap ?w2) (Some (length (heap w))) \<noteq> None" by (rule r(5)) simp
  have "new_events w (cmvfft_c2r L n m data res opt w) =
              [Malloc k sizeof_fftw_complex (Some (length (heap w))),
               Plan P (Some U),
               Memcpy (Some (length (heap w))) data n sizeof_fftw_complex,
               Execute P (Some (Cpx (take (nat n) xs @ drop (nat n) us))),
               Destroy P, Free (Some (length (heap w)))]"
    unfolding eq by (rule new_events_app) (simp add: tail_trace(1)[OF nf2 la] tr)
  moreover have "\<not> fault (cmvfft_c2r L n m data res opt w)"
    unfolding eq using nf2 la by (rule tail_trace(2))
  ultimately show ?thesis using us(1,2) by blast
qed

lemma c_mul_ok:
  assumes "0 \<le> a" "0 \<le> b" "a * b < 2 ^ 31"
  shows "c_mul a b = Some (a * b)"
proof -
  have "0 \<le> a * b" using assms(1,2) by (rule mult_nonneg_nonneg)
  then show ?thesis using assms(3) by (simp add: c_mul_def)
qed

lemma stride_covers:
  assumes "1 \<le> n" "2 \<le> m"
  shows "n < (c_div n 2 + 1) * m" and "(c_div n 2 + 1) * m \<le> n * m"
proof -
  have cd: "c_div n 2 = n div 2" using assms by (simp add: c_div_2)
  have a: "(n div 2 + 1) * 2 \<le> (n div 2 + 1) * m"
    using assms by (intro mult_left_mono) simp_all
  have "n < (n div 2 + 1) * 2" by presburger
  then show "n < (c_div n 2 + 1) * m" unfolding cd using a by (rule less_le_trans)
  have "n div 2 + 1 \<le> n" using assms by presburger
  then show "(c_div n 2 + 1) * m \<le> n * m"
    unfolding cd using assms by (intro mult_right_mono) simp_all
qed

text \<open>
  C6. A call of cmvfft_c2r with \<open>n \<ge> 1\<close>, \<open>m > 1\<close> and an effort above fastest-guess
  allocates a scratch array of \<open>n * m\<close> complex elements, creates the plan on it, and
  copies only \<open>n\<close> complex elements of the caller's input into it. The array handed to
  execution therefore holds the caller's first \<open>n\<close> elements followed by the cells
  \<open>us\<close> that the planner left in the fresh, never written scratch array. The plan reads
  \<open>m\<close> signals at distance \<open>n/2 + 1\<close>, that is the cells below \<open>(n/2 + 1) * m\<close>, and
  \<open>n < (n/2 + 1) * m \<le> n * m\<close>: cells that the transform reads were never filled from
  the caller's remaining signals.
\<close>

theorem cmvfft_c2r_copies_one_signal:
  fixes w :: "'a::uminus world"
  assumes nf: "\<not> fault w" and opt: "0 < fftwplanopt"
    and n: "1 \<le> n" and m: "2 \<le> m" and nm: "n * m < 2 ^ 31"
    and mem: "nat (n * m) * sizeof_fftw_complex \<le> avail w"
    and data: "load (heap w) data = Some (Cpx xs)" "nat n \<le> length xs"
    and res: "load (heap w) res = Some bo" "res \<noteq> data"
  defines "P \<equiv> \<lparr>pl_kind = C2R, pl_rank = 1, pl_n = [n], pl_howmany = m,
       pl_in = Some (length (heap w)), pl_idist = c_div n 2 + 1, pl_out = res, pl_odist = n,
       pl_sign = 0, pl_flags = FFTW_DESTROY_INPUT OR fftw_efforts fftwplanopt\<rparr>"
  defines "U \<equiv> Cpx (replicate (nat (n * m)) (None, None))"
  shows "\<exists>us. fit U (fst (planner L P U bo)) = Cpx us \<and> length us = nat (n * m)
          \<and> new_events w (cmvfft_c2r L n m data res fftwplanopt w) =
              [Malloc (n * m) sizeof_fftw_complex (Some (length (heap w))),
               Plan P (Some U),
               Memcpy (Some (length (heap w))) data n sizeof_fftw_complex,
               Execute P (Some (Cpx (take (nat n) xs @ drop (nat n) us))),
               Destroy P, Free (Some (length (heap w)))]
          \<and> n < (c_div n 2 + 1) * m \<and> (c_div n 2 + 1) * m \<le> n * m"
proof -
  have cm: "c_mul n m = Some (n * m)" using n m nm by (intro c_mul_ok) simp_all
  have n0: "0 \<le> n" "1 \<le> m" using n m by simp_all
  show ?thesis
    using cmvfft_c2r_scratch_run[OF nf opt n0 cm mem data res, of L] stride_covers[OF n m]
    unfolding P_def U_def by blast
qed

theorem cmvfft_c2r_copies_one_signal_witness:
  "\<not> fault world_c2r \<and> (1::int) * 2 < 2 ^ 31
   \<and> nat (1 * 2) * sizeof_fftw_complex \<le> avail world_c2r
   \<and> load (heap world_c2r) (Some 0) = Some (Cpx [(Some 5, Some 0), (Some 7, Some 0)])
   \<and> load (heap world_c2r) (Some 1) = Some (Dbl [None, None])
   \<and> new_events world_c2r (cmvfft_c2r fftw_len1 1 2 (Some 0) (Some 1) 1 world_c2r) =
       [Malloc 2 16 (Some 2),
        Plan \<lparr>pl_kind = C2R, pl_rank = 1, pl_n = [1], pl_howmany = 2, pl_in = Some 2,
               pl_idist = 1, pl_out = Some 1, pl_odist = 1, pl_sign = 0, pl_flags = 1\<rparr>
          (Some (Cpx [(None, None), (None, None)])),
        Memcpy (Some 2) (Some 0) 1 16,
        Execute \<lparr>pl_kind = C2R, pl_rank = 1, pl_n = [1], pl_howmany = 2, pl_in = Some 2,
               pl_idist = 1, pl_out = Some 1, pl_odist = 1, pl_sign = 0, pl_flags = 1\<rparr>
          (Some (Cpx [(Some 5, Some 0), (None, None)])),
        Destroy \<lparr>pl_kind = C2R, pl_rank = 1, pl_n = [1], pl_howmany = 2, pl_in = Some 2,
               pl_idist = 1, pl_out = Some 1, pl_odist = 1, pl_sign = 0, pl_flags = 1\<rparr>,
        Free (Some 2)]"
proof -
  have h: "\<not> fault world_c2r" "(0::int) < 1" "(1::int) \<le> 1" "(2::int) \<le> 2" "(1::int) * 2 < 2 ^ 31"
    "nat (1 * 2) * sizeof_fftw_complex \<le> avail world_c2r"
    "load (heap world_c2r) (Some 0) = Some (Cpx [(Some 5, Some 0), (Some 7, Some 0)])"
    "nat 1 \<le> length [(Some (5::int), Some (0::int)), (Some 7, Some 0)]"
    "load (heap world_c2r) (Some 1) = Some (Dbl [None, None])"
    "Some (1::nat) \<noteq> Some 0"
    by (simp_all add: world_c2r_def load_def sizeof_fftw_complex_def)
  obtain us where us: "fit (Cpx (replicate (nat (1 * 2)) (None, None)))
       (fst (planner fftw_len1 \<lparr>pl_kind = C2R, pl_rank = 1, pl_n = [1], pl_howmany = 2,
         pl_in = Some (length (heap world_c2r)), pl_idist = c_div 1 2 + 1, pl_out = Some 1,
         pl_odist = 1, pl_sign = 0, pl_flags = FFTW_DESTROY_INPUT OR fftw_efforts 1\<rparr>
         (Cpx (replicate (nat (1 * 2)) (None, None))) (Dbl [None, None]))) = Cpx us"
    and ev: "new_events world_c2r (cmvfft_c2r fftw_len1 1 2 (Some 0) (Some 1) 1 world_c2r) =
              [Malloc (1 * 2) sizeof_fftw_complex (Some (length (heap world_c2r))),
               Plan \<lparr>pl_kind = C2R, pl_rank = 1, pl_n = [1], pl_howmany = 2,
         pl_in = Some (length (heap world_c2r)), pl_idist = c_div 1 2 + 1, pl_out = Some 1,
         pl_odist = 1, pl_sign = 0, pl_flags = FFTW_DESTROY_INPUT OR fftw_efforts 1\<rparr>
                 (Some (Cpx (replicate (nat (1 * 2)) (None, None)))),
               Memcpy (Some (length (heap world_c2r))) (Some 0) 1 sizeof_fftw_complex,
               Execute \<lparr>pl_kind = C2R, pl_rank = 1, pl_n = [1], pl_howmany = 2,
         pl_in = Some (length (heap world_c2r)), pl_idist = c_div 1 2 + 1, pl_out = Some 1,
         pl_odist = 1, pl_sign = 0, pl_flags = FFTW_DESTROY_INPUT OR fftw_efforts 1\<rparr>
                 (Some (Cpx (take (nat 1) [(Some 5, Some 0), (Some 7, Some 0)] @ drop (nat 1) us))),
               Destroy \<lparr>pl_kind = C2R, pl_rank = 1, pl_n = [1], pl_howmany = 2,
         pl_in = Some (length (heap world_c2r)), pl_idist = c_div 1 2 + 1, pl_out = Some 1,
         pl_odist = 1, pl_sign = 0, pl_flags = FFTW_DESTROY_INPUT OR fftw_efforts 1\<rparr>,
               Free (Some (length (heap world_c2r)))]"
    using cmvfft_c2r_copies_one_signal[OF h, of fftw_len1] by blast
  have "us = [(None, None), (None, None)]"
    using us by (simp add: fftw_len1_def numeral_2_eq_2)
  then show ?thesis
    using ev h by (simp add: world_c2r_def sizeof_fftw_complex_def c_div_def fftw_efforts_def
        fftw_consts numeral_2_eq_2)
qed

section \<open>The order of allocation, planning and copying\<close>

lemma herm_loop_faulted: "fault w \<Longrightarrow> herm_loop res n i w = w"
proof (induction res n i w rule: herm_loop.induct)
  case (1 res n i w)
  have "herm_body res n i w = w" using "1.prems" by (simp add: herm_body_def)
  then show ?case using 1 by (subst herm_loop.simps) simp
qed

lemma faulted_skips:
  "fault v \<Longrightarrow> memcpy_double dst src k v = v"
  "fault v \<Longrightarrow> memcpy_complex dst src k v = v"
  "fault v \<Longrightarrow> fftw_execute L p v = v"
  "fault v \<Longrightarrow> fftw_destroy_plan p v = v"
  "fault v \<Longrightarrow> free q v = v"
  by (simp_all add: memcpy_double_def memcpy_complex_def memcpy_of_def fftw_execute_def
      fftw_destroy_plan_def free_def)

lemma fault_carried:
  "fault w \<Longrightarrow> fftw_execute L p (memcpy_of el sz dst src c w) = w"
  by (simp add: memcpy_of_def fftw_execute_def)

lemma cmvfft_r2c_scratch_run:
  fixes w :: "'a::uminus world"
  assumes nf: "\<not> fault w" and opt: "0 < opt"
    and cm: "c_mul n m = Some k" and k0: "0 \<le> k"
    and mem: "nat k * sizeof_double \<le> avail w"
    and data: "load (heap w) data = Some (Dbl xs)" "nat k \<le> length xs"
    and res: "load (heap w) res = Some bo" "res \<noteq> data"
  defines "P \<equiv> \<lparr>pl_kind = R2C, pl_rank = 1, pl_n = [n], pl_howmany = m,
       pl_in = Some (length (heap w)), pl_idist = n, pl_out = res, pl_odist = c_div n 2 + 1,
       pl_sign = 0, pl_flags = FFTW_DESTROY_INPUT OR fftw_efforts opt\<rparr>"
  shows "new_events w (cmvfft_r2c L n m data res opt w) =
              [Malloc k sizeof_double (Some (length (heap w))),
               Plan P (Some (Dbl (replicate (nat k) None))),
               Memcpy (Some (length (heap w))) data k sizeof_double,
               Execute P (Some (Dbl (take (nat k) xs))),
               Destroy P, Free (Some (length (heap w)))]"
    and "\<not> fault (cmvfft_r2c L n m data res opt w)"
proof -
  let ?U = "Dbl (replicate (nat k) None) :: 'a buf"
  let ?fresh = "\<lambda>j. Dbl (replicate j None) :: 'a buf"
  have pf: "pl_flags P AND FFTW_ESTIMATE = 0" using flags_measure[OF opt] by (simp add: P_def)
  have pp: "pl_in P = Some (length (heap w))" "pl_out P = res" by (simp_all add: P_def)
  have Un: "?fresh (nat k) = ?U" "?U \<noteq> Freed" by simp_all
  note r = scratch_run[where fresh = ?fresh and L = L and el = is_dbl and sz = sizeof_double,
      OF nf k0 mem Un pp pf res(1) data(1) res(2) k0 _ copy_into_fit_Dbl[OF data(2)]]
  let ?wc = "snd (fftw_mkplan L P (snd (malloc_of ?fresh sizeof_double k w)))"
  let ?w2 = "fftw_execute L P (memcpy_of is_dbl sizeof_double (Some (length (heap w))) data k ?wc)"
  have m: "fst (malloc_of ?fresh sizeof_double k w) = Some (length (heap w))"
    by (rule r(1)) simp
  have nf2: "\<not> fault ?w2" by (rule r(2)) simp
  have nfc: "\<not> fault ?wc"
  proof
    assume "fault ?wc"
    then have "?w2 = ?wc" by (rule fault_carried)
    then show False using nf2 \<open>fault ?wc\<close> by simp
  qed
  have eq: "cmvfft_r2c L n m data res opt w =
            free (Some (length (heap w))) (fftw_destroy_plan P ?w2)"
    using opt m nf cm nfc
    by (simp add: cmvfft_r2c_def Let_def split_def efforts_estimate fftw_plan_many_dft_r2c_def
        malloc_double_def memcpy_double_def P_def fault_int_mul)
  have tr: "trace ?w2 = trace w @ [Malloc k sizeof_double (Some (length (heap w))),
               Plan P (Some ?U), Memcpy (Some (length (heap w))) data k sizeof_double,
               Execute P (Some (Dbl (take (nat k) xs)))]"
    by (rule r(3)) simp
  have la: "load (heap ?w2) (Some (length (heap w))) \<noteq> None" by (rule r(5)) simp
  show "new_events w (cmvfft_r2c L n m data res opt w) =
              [Malloc k sizeof_double (Some (length (heap w))),
               Plan P (Some (Dbl (replicate (nat k) None))),
               Memcpy (Some (length (heap w))) data k sizeof_double,
               Execute P (Some (Dbl (take (nat k) xs))),
               Destroy P, Free (Some (length (heap w)))]"
    unfolding eq by (rule new_events_app) (simp add: tail_trace(1)[OF nf2 la] tr)
  show "\<not> fault (cmvfft_r2c L n m data res opt w)"
    unfolding eq using nf2 la by (rule tail_trace(2))
qed

lemma cfft_r2c_scratch_events:
  fixes w :: "'a::uminus world"
  assumes nf: "\<not> fault w" and opt: "0 < opt"
    and n: "0 \<le> n" "nat n * sizeof_double \<le> avail w"
    and data: "load (heap w) data = Some (Dbl xs)" "nat n \<le> length xs"
    and res: "load (heap w) res = Some (Cpx ys)"
  shows "take 4 (new_events w (cfft_r2c L n data res flag opt w)) =
      [Malloc n sizeof_double (Some (length (heap w))),
       Plan \<lparr>pl_kind = R2C, pl_rank = 1, pl_n = [n], pl_howmany = 1,
              pl_in = Some (length (heap w)), pl_idist = 0, pl_out = res, pl_odist = 0,
              pl_sign = 0, pl_flags = FFTW_DESTROY_INPUT OR fftw_efforts opt\<rparr>
         (Some (Dbl (replicate (nat n) None))),
       Memcpy (Some (length (heap w))) data n sizeof_double,
       Execute \<lparr>pl_kind = R2C, pl_rank = 1, pl_n = [n], pl_howmany = 1,
              pl_in = Some (length (heap w)), pl_idist = 0, pl_out = res, pl_odist = 0,
              pl_sign = 0, pl_flags = FFTW_DESTROY_INPUT OR fftw_efforts opt\<rparr>
         (Some (Dbl (take (nat n) xs)))]"
proof -
  let ?P = "\<lparr>pl_kind = R2C, pl_rank = 1, pl_n = [n], pl_howmany = 1,
              pl_in = Some (length (heap w)), pl_idist = 0, pl_out = res, pl_odist = 0,
              pl_sign = 0, pl_flags = FFTW_DESTROY_INPUT OR fftw_efforts opt\<rparr>"
  obtain w2 where e: "cfft_r2c L n data res flag opt w =
            free (Some (length (heap w))) (fftw_destroy_plan ?P
              (if flag = 1 then herm_loop res n (c_div n 2 + 1) w2 else w2))"
    and tr: "trace w2 = trace w @ [Malloc n sizeof_double (Some (length (heap w))),
                 Plan ?P (Some (Dbl (replicate (nat n) None))),
                 Memcpy (Some (length (heap w))) data n sizeof_double,
                 Execute ?P (Some (Dbl (take (nat n) xs)))]"
    using cfft_r2c_scratch_exec[OF nf opt n data res, of L flag] by blast
  show ?thesis
    unfolding e by (simp add: new_events_def free_trace destroy_trace tr)
qed

lemma malloc_of_trace_all:
  "trace (snd (malloc_of fresh sz k w)) =
     trace w @ (if fault w then [] else [Malloc k sz (fst (malloc_of fresh sz k w))])"
  by (simp add: malloc_of_def emit_def)

lemma mkplan_trace_all:
  "trace (snd (fftw_mkplan L p w)) =
     trace w @ (if fault w then [] else [Plan p (load (heap w) (pl_in p))])"
  by (simp add: fftw_mkplan_def Let_def emit_def)

lemma faulted_start:
  "fault v \<Longrightarrow> malloc_of fresh sz k v = (None, v)"
  "fault v \<Longrightarrow> fftw_mkplan L p v = (p, v)"
  "fault v \<Longrightarrow> int_mul a b v = (0, v)"
  by (simp_all add: malloc_of_def fftw_mkplan_def int_mul_def)

lemma malloc_of_ok:
  assumes "\<not> fault w" "0 \<le> k" "nat k * sz \<le> avail w"
  shows "malloc_of fresh sz k w =
     (Some (length (heap w)),
      w\<lparr>heap := heap w @ [fresh (nat k)], avail := avail w - nat k * sz,
         trace := trace w @ [Malloc k sz (Some (length (heap w)))]\<rparr>)"
  using assms by (simp add: malloc_of_def emit_def)

lemma malloc_of_fail:
  assumes "\<not> fault w" "\<not> (0 \<le> k \<and> nat k * sz \<le> avail w)"
  shows "malloc_of fresh sz k w = (None, w\<lparr>trace := trace w @ [Malloc k sz None]\<rparr>)"
  using assms by (auto simp add: malloc_of_def emit_def)

lemma plan_on_null:
  assumes "\<not> fault v" "pl_in p = None" "pl_flags p AND FFTW_ESTIMATE = 0"
  shows "snd (fftw_mkplan L p v) = v\<lparr>trace := trace v @ [Plan p None], fault := True\<rparr>"
  using assms by (simp add: fftw_mkplan_def Let_def emit_def touch_def crash_def load_def)

lemma tail_order:
  "planned_before_copy [Some a]
     ((if c1 then [] else [Memcpy (Some a) src k sz]) @ (if c2 then [] else [Execute p s])
      @ (if c3 then [] else [Destroy p]) @ (if c4 then [] else [Free q]))"
  by simp

lemma cfft_r2c_order:
  fixes w :: "'a::uminus world"
  assumes opt: "0 < opt"
  shows "planned_before_copy [] (new_events w (cfft_r2c L n data res flag opt w))"
proof -
  let ?fresh = "\<lambda>j. Dbl (replicate j None) :: 'a buf"
  let ?P = "\<lambda>dc. \<lparr>pl_kind = R2C, pl_rank = 1, pl_n = [n], pl_howmany = 1,
              pl_in = dc, pl_idist = 0, pl_out = res, pl_odist = 0,
              pl_sign = 0, pl_flags = FFTW_DESTROY_INPUT OR fftw_efforts opt\<rparr>"
  have pf: "\<And>dc. pl_flags (?P dc) AND FFTW_ESTIMATE = 0" using flags_measure[OF opt] by simp
  consider (faulted) "fault w"
    | (fail) "\<not> fault w" "\<not> (0 \<le> n \<and> nat n * sizeof_double \<le> avail w)"
    | (ok) "\<not> fault w" "0 \<le> n" "nat n * sizeof_double \<le> avail w" by blast
  then show ?thesis
  proof cases
    case faulted
    then have "cfft_r2c L n data res flag opt w = w"
      using opt
      by (simp add: cfft_r2c_def Let_def split_def efforts_estimate fftw_plan_dft_r2c_1d_def
          malloc_double_def faulted_start faulted_skips herm_loop_faulted)
    then show ?thesis by (simp add: new_events_def)
  next
    case fail
    have m: "malloc_of ?fresh sizeof_double n w =
        (None, w\<lparr>trace := trace w @ [Malloc n sizeof_double None]\<rparr>)"
      using fail by (rule malloc_of_fail)
    have "cfft_r2c L n data res flag opt w =
        w\<lparr>trace := trace w @ [Malloc n sizeof_double None, Plan (?P None) None], fault := True\<rparr>"
      using opt fail(1) pf
      by (simp add: cfft_r2c_def Let_def split_def efforts_estimate fftw_plan_dft_r2c_1d_def
          malloc_double_def m plan_on_null faulted_skips herm_loop_faulted)
    then show ?thesis by (simp add: new_events_def)
  next
    case ok
    let ?a = "length (heap w)"
    let ?wa = "w\<lparr>heap := heap w @ [?fresh (nat n)], avail := avail w - nat n * sizeof_double,
         trace := trace w @ [Malloc n sizeof_double (Some ?a)]\<rparr>"
    have m: "malloc_of ?fresh sizeof_double n w = (Some ?a, ?wa)"
      using ok by (rule malloc_of_ok)
    have l: "load (heap ?wa) (Some ?a) = Some (?fresh (nat n))"
      by (simp add: load_simps)
    show ?thesis
      using opt ok(1) l tail_order[of ?a _ data n sizeof_double]
      by (simp add: cfft_r2c_def Let_def split_def efforts_estimate fftw_plan_dft_r2c_1d_def
          malloc_double_def memcpy_double_def m new_events_def free_trace destroy_trace
          execute_trace memcpy_of_trace mkplan_trace_all list_all_length)
  qed
qed

lemma int_mul_overflow: "\<not> fault w \<Longrightarrow> c_mul a b = None \<Longrightarrow> int_mul a b w = (0, crash w)"
  by (simp add: int_mul_def)

lemma cmvfft_r2c_order:
  fixes w :: "'a::uminus world"
  assumes opt: "0 < opt"
  shows "planned_before_copy [] (new_events w (cmvfft_r2c L n m data res opt w))"
proof -
  let ?fresh = "\<lambda>j. Dbl (replicate j None) :: 'a buf"
  let ?P = "\<lambda>dc. \<lparr>pl_kind = R2C, pl_rank = 1, pl_n = [n], pl_howmany = m,
              pl_in = dc, pl_idist = n, pl_out = res, pl_odist = c_div n 2 + 1,
              pl_sign = 0, pl_flags = FFTW_DESTROY_INPUT OR fftw_efforts opt\<rparr>"
  have pf: "\<And>dc. pl_flags (?P dc) AND FFTW_ESTIMATE = 0" using flags_measure[OF opt] by simp
  consider (faulted) "fault w"
    | (overflow) "\<not> fault w" "c_mul n m = None"
    | (fail) k where "\<not> fault w" "c_mul n m = Some k"
        "\<not> (0 \<le> k \<and> nat k * sizeof_double \<le> avail w)"
    | (ok) k where "\<not> fault w" "c_mul n m = Some k" "0 \<le> k" "nat k * sizeof_double \<le> avail w"
    by (cases "c_mul n m") auto
  then show ?thesis
  proof cases
    case faulted
    then have "cmvfft_r2c L n m data res opt w = w"
      using opt
      by (simp add: cmvfft_r2c_def Let_def split_def efforts_estimate fftw_plan_many_dft_r2c_def
          malloc_double_def faulted_start faulted_skips)
    then show ?thesis by (simp add: new_events_def)
  next
    case overflow
    have f: "fault (crash w)" by (simp add: crash_def)
    have "cmvfft_r2c L n m data res opt w = crash w"
      using opt f
      by (simp add: cmvfft_r2c_def Let_def split_def efforts_estimate fftw_plan_many_dft_r2c_def
          malloc_double_def int_mul_overflow[OF overflow] faulted_start faulted_skips)
    then show ?thesis by (simp add: new_events_def crash_def)
  next
    case fail
    have m: "malloc_of ?fresh sizeof_double k w =
        (None, w\<lparr>trace := trace w @ [Malloc k sizeof_double None]\<rparr>)"
      using fail(1,3) by (rule malloc_of_fail)
    have "cmvfft_r2c L n m data res opt w =
        w\<lparr>trace := trace w @ [Malloc k sizeof_double None, Plan (?P None) None], fault := True\<rparr>"
      using opt fail(1) pf
      by (simp add: cmvfft_r2c_def Let_def split_def efforts_estimate fftw_plan_many_dft_r2c_def
          malloc_double_def m plan_on_null faulted_skips fault_int_mul[OF fail(2)])
    then show ?thesis by (simp add: new_events_def)
  next
    case ok
    let ?a = "length (heap w)"
    let ?wa = "w\<lparr>heap := heap w @ [?fresh (nat k)], avail := avail w - nat k * sizeof_double,
         trace := trace w @ [Malloc k sizeof_double (Some ?a)]\<rparr>"
    have m: "malloc_of ?fresh sizeof_double k w = (Some ?a, ?wa)"
      using ok(1,3,4) by (rule malloc_of_ok)
    have l: "load (heap ?wa) (Some ?a) = Some (?fresh (nat k))"
      by (simp add: load_simps)
    show ?thesis
      using opt ok(1) l tail_order[of ?a _ data _ sizeof_double]
      by (simp add: cmvfft_r2c_def Let_def split_def efforts_estimate fftw_plan_many_dft_r2c_def
          malloc_double_def memcpy_double_def m new_events_def free_trace destroy_trace
          execute_trace memcpy_of_trace mkplan_trace_all list_all_length
          fault_int_mul[OF ok(2)])
  qed
qed

lemma scratch_runs_exact:
  fixes w :: "'a::uminus world"
  assumes nf: "\<not> fault w" and opt: "0 < fftwplanopt"
    and n: "0 \<le> n" and m: "1 \<le> m" and nm: "n * m < 2 ^ 31"
    and mem: "nat (n * m) * sizeof_double \<le> avail w"
    and data: "load (heap w) data = Some (Dbl xs)" "nat (n * m) \<le> length xs"
    and res: "load (heap w) res = Some (Cpx ys)"
  shows "take 4 (new_events w (cfft_r2c L n data res retHermConj fftwplanopt w)) =
      [Malloc n sizeof_double (Some (length (heap w))),
       Plan \<lparr>pl_kind = R2C, pl_rank = 1, pl_n = [n], pl_howmany = 1,
              pl_in = Some (length (heap w)), pl_idist = 0, pl_out = res, pl_odist = 0,
              pl_sign = 0, pl_flags = FFTW_DESTROY_INPUT OR fftw_efforts fftwplanopt\<rparr>
         (Some (Dbl (replicate (nat n) None))),
       Memcpy (Some (length (heap w))) data n sizeof_double,
       Execute \<lparr>pl_kind = R2C, pl_rank = 1, pl_n = [n], pl_howmany = 1,
              pl_in = Some (length (heap w)), pl_idist = 0, pl_out = res, pl_odist = 0,
              pl_sign = 0, pl_flags = FFTW_DESTROY_INPUT OR fftw_efforts fftwplanopt\<rparr>
         (Some (Dbl (take (nat n) xs)))]
    \<and> new_events w (cmvfft_r2c L n m data res fftwplanopt w) =
      [Malloc (n * m) sizeof_double (Some (length (heap w))),
       Plan \<lparr>pl_kind = R2C, pl_rank = 1, pl_n = [n], pl_howmany = m,
              pl_in = Some (length (heap w)), pl_idist = n, pl_out = res,
              pl_odist = c_div n 2 + 1, pl_sign = 0,
              pl_flags = FFTW_DESTROY_INPUT OR fftw_efforts fftwplanopt\<rparr>
         (Some (Dbl (replicate (nat (n * m)) None))),
       Memcpy (Some (length (heap w))) data (n * m) sizeof_double,
       Execute \<lparr>pl_kind = R2C, pl_rank = 1, pl_n = [n], pl_howmany = m,
              pl_in = Some (length (heap w)), pl_idist = n, pl_out = res,
              pl_odist = c_div n 2 + 1, pl_sign = 0,
              pl_flags = FFTW_DESTROY_INPUT OR fftw_efforts fftwplanopt\<rparr>
         (Some (Dbl (take (nat (n * m)) xs))),
       Destroy \<lparr>pl_kind = R2C, pl_rank = 1, pl_n = [n], pl_howmany = m,
              pl_in = Some (length (heap w)), pl_idist = n, pl_out = res,
              pl_odist = c_div n 2 + 1, pl_sign = 0,
              pl_flags = FFTW_DESTROY_INPUT OR fftw_efforts fftwplanopt\<rparr>,
       Free (Some (length (heap w)))]"
proof -
  have m0: "0 \<le> m" using m by simp
  have cm: "c_mul n m = Some (n * m)" using n m0 nm by (rule c_mul_ok)
  have k0: "0 \<le> n * m" using n m0 by (rule mult_nonneg_nonneg)
  have le: "n \<le> n * m" using n m by (simp add: mult_le_cancel_left1)
  then have nle: "nat n \<le> nat (n * m)" by simp
  have mem1: "nat n * sizeof_double \<le> avail w"
    using mem nle by (meson le_trans mult_le_mono1)
  have len1: "nat n \<le> length xs" using data(2) nle by simp
  have rd: "res \<noteq> data" using data(1) res by auto
  show ?thesis
    using cfft_r2c_scratch_events[OF nf opt n mem1 data(1) len1 res, of L retHermConj]
      cmvfft_r2c_scratch_run(1)[OF nf opt cm k0 mem data res rd, of L]
    by simp
qed

text \<open>
  C1. With an effort above fastest-guess, every call of cfft_r2c and of cmvfft_r2c, however
  it ends, creates its plan on an array that holds no written cell and copies the caller's
  data only into the input array of a plan that already exists. For a well-formed call the
  calls issued are exactly: the scratch array is allocated, the plan is created on the
  scratch array while every cell of it is still unwritten, then the caller's input is
  copied into it, and execution reads that copy. Well-formed means: \<open>n \<ge> 0\<close>,
  \<open>m \<ge> 1\<close>, \<open>n * m\<close> fits a C int, the allocator can grant the array, the input array
  holds at least \<open>n * m\<close> doubles (\<open>m = 1\<close> gives the single-signal call its own
  precondition), and the output array is an array of complex bins.
\<close>

theorem scratch_planned_before_copy:
  fixes w :: "'a::uminus world"
  assumes opt: "0 < fftwplanopt"
  shows "planned_before_copy []
           (new_events w (cfft_r2c L n data res retHermConj fftwplanopt w))
    \<and> planned_before_copy [] (new_events w (cmvfft_r2c L n m data res fftwplanopt w))
    \<and> (\<not> fault w \<and> 0 \<le> n \<and> 1 \<le> m \<and> n * m < 2 ^ 31
         \<and> nat (n * m) * sizeof_double \<le> avail w
         \<and> load (heap w) data = Some (Dbl xs) \<and> nat (n * m) \<le> length xs
         \<and> load (heap w) res = Some (Cpx ys) \<longrightarrow>
    take 4 (new_events w (cfft_r2c L n data res retHermConj fftwplanopt w)) =
        [Malloc n sizeof_double (Some (length (heap w))),
         Plan \<lparr>pl_kind = R2C, pl_rank = 1, pl_n = [n], pl_howmany = 1,
                pl_in = Some (length (heap w)), pl_idist = 0, pl_out = res, pl_odist = 0,
                pl_sign = 0, pl_flags = FFTW_DESTROY_INPUT OR fftw_efforts fftwplanopt\<rparr>
           (Some (Dbl (replicate (nat n) None))),
         Memcpy (Some (length (heap w))) data n sizeof_double,
         Execute \<lparr>pl_kind = R2C, pl_rank = 1, pl_n = [n], pl_howmany = 1,
                pl_in = Some (length (heap w)), pl_idist = 0, pl_out = res, pl_odist = 0,
                pl_sign = 0, pl_flags = FFTW_DESTROY_INPUT OR fftw_efforts fftwplanopt\<rparr>
           (Some (Dbl (take (nat n) xs)))]
      \<and> new_events w (cmvfft_r2c L n m data res fftwplanopt w) =
        [Malloc (n * m) sizeof_double (Some (length (heap w))),
         Plan \<lparr>pl_kind = R2C, pl_rank = 1, pl_n = [n], pl_howmany = m,
                pl_in = Some (length (heap w)), pl_idist = n, pl_out = res,
                pl_odist = c_div n 2 + 1, pl_sign = 0,
                pl_flags = FFTW_DESTROY_INPUT OR fftw_efforts fftwplanopt\<rparr>
           (Some (Dbl (replicate (nat (n * m)) None))),
         Memcpy (Some (length (heap w))) data (n * m) sizeof_double,
         Execute \<lparr>pl_kind = R2C, pl_rank = 1, pl_n = [n], pl_howmany = m,
                pl_in = Some (length (heap w)), pl_idist = n, pl_out = res,
                pl_odist = c_div n 2 + 1, pl_sign = 0,
                pl_flags = FFTW_DESTROY_INPUT OR fftw_efforts fftwplanopt\<rparr>
           (Some (Dbl (take (nat (n * m)) xs))),
         Destroy \<lparr>pl_kind = R2C, pl_rank = 1, pl_n = [n], pl_howmany = m,
                pl_in = Some (length (heap w)), pl_idist = n, pl_out = res,
                pl_odist = c_div n 2 + 1, pl_sign = 0,
                pl_flags = FFTW_DESTROY_INPUT OR fftw_efforts fftwplanopt\<rparr>,
         Free (Some (length (heap w)))])"
    (is "?A \<and> ?B \<and> (?WF \<longrightarrow> ?E)")
proof -
  have a: ?A by (rule cfft_r2c_order[OF opt])
  have b: ?B by (rule cmvfft_r2c_order[OF opt])
  have c: "?WF \<longrightarrow> ?E"
  proof
    assume wf: ?WF
    show ?E using wf by (intro scratch_runs_exact[OF _ opt]) simp_all
  qed
  show ?thesis using a b c by (intro conjI)
qed

theorem scratch_planned_before_copy_witness:
  "\<not> fault world_r2c \<and> (1::int) * 2 < 2 ^ 31
   \<and> nat (1 * 2) * sizeof_double \<le> avail world_r2c
   \<and> load (heap world_r2c) (Some 0) = Some (Dbl [Some 5, Some 7])
   \<and> load (heap world_r2c) (Some 1) = Some (Cpx [(None, None), (None, None)])
   \<and> planned_before_copy []
        (new_events world_r2c (cfft_r2c fftw_len1 1 (Some 0) (Some 1) 0 1 world_r2c))
   \<and> planned_before_copy []
        (new_events world_r2c (cmvfft_r2c fftw_len1 1 2 (Some 0) (Some 1) 1 world_r2c))
   \<and> \<not> planned_before_copy []
        (new_events world_r2c (cfft_r2c fftw_len1 1 (Some 0) (Some 1) 0 0 world_r2c))
   \<and> take 4 (new_events world_r2c (cfft_r2c fftw_len1 1 (Some 0) (Some 1) 0 1 world_r2c)) =
      [Malloc 1 8 (Some 2),
       Plan \<lparr>pl_kind = R2C, pl_rank = 1, pl_n = [1], pl_howmany = 1, pl_in = Some 2,
              pl_idist = 0, pl_out = Some 1, pl_odist = 0, pl_sign = 0, pl_flags = 1\<rparr>
         (Some (Dbl [None])),
       Memcpy (Some 2) (Some 0) 1 8,
       Execute \<lparr>pl_kind = R2C, pl_rank = 1, pl_n = [1], pl_howmany = 1, pl_in = Some 2,
              pl_idist = 0, pl_out = Some 1, pl_odist = 0, pl_sign = 0, pl_flags = 1\<rparr>
         (Some (Dbl [Some 5]))]
   \<and> new_events world_r2c (cmvfft_r2c fftw_len1 1 2 (Some 0) (Some 1) 1 world_r2c) =
      [Malloc 2 8 (Some 2),
       Plan \<lparr>pl_kind = R2C, pl_rank = 1, pl_n = [1], pl_howmany = 2, pl_in = Some 2,
              pl_idist = 1, pl_out = Some 1, pl_odist = 1, pl_sign = 0, pl_flags = 1\<rparr>
         (Some (Dbl [None, None])),
       Memcpy (Some 2) (Some 0) 2 8,
       Execute \<lparr>pl_kind = R2C, pl_rank = 1, pl_n = [1], pl_howmany = 2, pl_in = Some 2,
              pl_idist = 1, pl_out = Some 1, pl_odist = 1, pl_sign = 0, pl_flags = 1\<rparr>
         (Some (Dbl [Some 5, Some 7])),
       Destroy \<lparr>pl_kind = R2C, pl_rank = 1, pl_n = [1], pl_howmany = 2, pl_in = Some 2,
              pl_idist = 1, pl_out = Some 1, pl_odist = 1, pl_sign = 0, pl_flags = 1\<rparr>,
       Free (Some 2)]"
proof -
  have h: "\<not> fault world_r2c \<and> (0::int) \<le> 1 \<and> (1::int) \<le> 2 \<and> (1::int) * 2 < 2 ^ 31
    \<and> nat (1 * 2) * sizeof_double \<le> avail world_r2c
    \<and> load (heap world_r2c) (Some 0) = Some (Dbl [Some 5, Some 7])
    \<and> nat (1 * 2) \<le> length [Some (5::int), Some 7]
    \<and> load (heap world_r2c) (Some 1) = Some (Cpx [(None, None), (None, None)])"
    by (simp add: world_r2c_def load_def sizeof_double_def)
  have est: "\<not> planned_before_copy []
        (new_events world_r2c (cfft_r2c fftw_len1 1 (Some 0) (Some 1) 0 0 world_r2c))"
    by (simp add: run_defs cfft_r2c_def fftw_plan_dft_r2c_1d_def new_events_def fftw_len1_def
        world_r2c_def)
  have o: "(0::int) < 1" by simp
  show ?thesis
    using h est scratch_planned_before_copy[OF o, where w = world_r2c and L = fftw_len1
        and n = 1 and m = 2 and data = "Some 0" and res = "Some 1" and retHermConj = 0
        and xs = "[Some 5, Some 7]" and ys = "[(None, None), (None, None)]"]
    by (simp add: world_r2c_def sizeof_double_def c_div_def fftw_efforts_def
        fftw_consts numeral_2_eq_2)
qed

section \<open>Allocation failure\<close>

text \<open>
  C2, as amended. The specification says that a failed allocation of the scratch array
  keeps cfft_r2c from creating or executing a plan. The code never tests the pointer that
  malloc returns. With an effort above fastest-guess and a failed allocation, the planner is
  still called, with the null pointer as the plan's input array. Planning above
  fastest-guess writes the plan's input array, which is undefined for the null pointer:
  the run ends there as a fault, and no copy or execution call is issued after it.
\<close>

theorem alloc_failure_not_detected:
  fixes w :: "'a::uminus world"
  assumes nf: "\<not> fault w" and opt: "0 < fftwplanopt"
    and fail: "fst (malloc_double n w) = None"
  shows "new_events w (cfft_r2c L n data res retHermConj fftwplanopt w) =
      [Malloc n sizeof_double None,
       Plan \<lparr>pl_kind = R2C, pl_rank = 1, pl_n = [n], pl_howmany = 1,
              pl_in = None, pl_idist = 0, pl_out = res, pl_odist = 0,
              pl_sign = 0, pl_flags = FFTW_DESTROY_INPUT OR fftw_efforts fftwplanopt\<rparr> None]
    \<and> fault (cfft_r2c L n data res retHermConj fftwplanopt w)"
proof -
  let ?P = "\<lparr>pl_kind = R2C, pl_rank = 1, pl_n = [n], pl_howmany = 1,
              pl_in = None, pl_idist = 0, pl_out = res, pl_odist = 0,
              pl_sign = 0, pl_flags = FFTW_DESTROY_INPUT OR fftw_efforts fftwplanopt\<rparr>"
  have no: "\<not> (0 \<le> n \<and> nat n * sizeof_double \<le> avail w)"
    using fail nf by (auto simp add: malloc_double_def malloc_of_def split: if_splits)
  have wa: "snd (malloc_double n w) = w\<lparr>trace := trace w @ [Malloc n sizeof_double None]\<rparr>"
    using nf no by (auto simp add: malloc_double_def malloc_of_def emit_def)
  have pf: "pl_flags ?P AND FFTW_ESTIMATE = 0" using flags_measure[OF opt] by simp
  have wb: "snd (fftw_mkplan L ?P (snd (malloc_double n w))) =
      w\<lparr>trace := trace w @ [Malloc n sizeof_double None, Plan ?P None], fault := True\<rparr>"
    using nf pf by (simp add: wa fftw_mkplan_def Let_def emit_def touch_def crash_def load_def)
  have "cfft_r2c L n data res retHermConj fftwplanopt w =
      w\<lparr>trace := trace w @ [Malloc n sizeof_double None, Plan ?P None], fault := True\<rparr>"
    using opt fail wb
    by (simp add: cfft_r2c_def Let_def split_def efforts_estimate fftw_plan_dft_r2c_1d_def
        faulted_skips herm_loop_faulted)
  then show ?thesis by (simp add: new_events_def)
qed

theorem alloc_failure_not_detected_witness:
  "\<not> fault world_no_memory \<and> (0::int) < 1 \<and> fst (malloc_double 4 world_no_memory) = None
   \<and> new_events world_no_memory
        (cfft_r2c fftw_len1 4 (Some 0) (Some 1) 0 1 world_no_memory) =
      [Malloc 4 8 None,
       Plan \<lparr>pl_kind = R2C, pl_rank = 1, pl_n = [4], pl_howmany = 1, pl_in = None,
              pl_idist = 0, pl_out = Some 1, pl_odist = 0, pl_sign = 0, pl_flags = 1\<rparr> None]
   \<and> fault (cfft_r2c fftw_len1 4 (Some 0) (Some 1) 0 1 world_no_memory)"
proof -
  have h: "\<not> fault world_no_memory" "(0::int) < 1" "fst (malloc_double 4 world_no_memory) = None"
    by (simp_all add: world_no_memory_def malloc_double_def malloc_of_def sizeof_double_def)
  show ?thesis
    using h alloc_failure_not_detected[OF h, of fftw_len1 "Some 0" "Some 1" 0]
    by (simp add: sizeof_double_def fftw_efforts_def fftw_consts)
qed

theorem alloc_failure_reaches_planner:
  "fst (malloc_double 4 world_no_memory) = None
   \<and> trace (cfft_r2c fftw_len1 4 (Some 0) (Some 1) 0 1 world_no_memory) =
      [Malloc 4 8 None,
       Plan \<lparr>pl_kind = R2C, pl_rank = 1, pl_n = [4], pl_howmany = 1, pl_in = None,
              pl_idist = 0, pl_out = Some 1, pl_odist = 0, pl_sign = 0, pl_flags = 1\<rparr> None]
   \<and> plans (trace (cfft_r2c fftw_len1 4 (Some 0) (Some 1) 0 1 world_no_memory)) \<noteq> []"
  by (simp add: run_defs cfft_r2c_def fftw_plan_dft_r2c_1d_def herm_loop.simps herm_body_def
      fftw_len1_def world_no_memory_def)

section \<open>The batched complex-to-complex transform\<close>

text \<open>
  C3. The specification says that cmvfft_c2c, above fastest-guess, copies the caller's
  whole input of \<open>n * m\<close> elements into the scratch array of \<open>n * m\<close> elements. The
  sibling cmvfft_r2c does so. The code of cmvfft_c2c passes
  \<open>*n * sizeof(fftw_complex)\<close> to memcpy: for \<open>n = 1\<close>, \<open>m = 2\<close> and the input
  \<open>(5, 0), (7, 0)\<close> it allocates two elements, copies one, and executes the plan on the
  array \<open>(5, 0)\<close> followed by a cell that was never written.
\<close>

theorem cmvfft_c2c_copies_one_signal:
  "new_events world_c2c (cmvfft_c2c fftw_len1 1 2 (Some 0) (Some 1) 0 1 world_c2c) =
      [Malloc 2 16 (Some 2),
       Plan \<lparr>pl_kind = C2C, pl_rank = 1, pl_n = [1], pl_howmany = 2, pl_in = Some 2,
              pl_idist = 1, pl_out = Some 1, pl_odist = 1, pl_sign = - 1, pl_flags = 1\<rparr>
         (Some (Cpx [(None, None), (None, None)])),
       Memcpy (Some 2) (Some 0) 1 16,
       Execute \<lparr>pl_kind = C2C, pl_rank = 1, pl_n = [1], pl_howmany = 2, pl_in = Some 2,
              pl_idist = 1, pl_out = Some 1, pl_odist = 1, pl_sign = - 1, pl_flags = 1\<rparr>
         (Some (Cpx [(Some 5, Some 0), (None, None)])),
       Destroy \<lparr>pl_kind = C2C, pl_rank = 1, pl_n = [1], pl_howmany = 2, pl_in = Some 2,
              pl_idist = 1, pl_out = Some 1, pl_odist = 1, pl_sign = - 1, pl_flags = 1\<rparr>,
       Free (Some 2)]
   \<and> load (heap world_c2c) (Some 0) = Some (Cpx [(Some 5, Some 0), (Some 7, Some 0)])"
  by (simp add: run_defs cmvfft_c2c_def fftw_plan_many_dft_def new_events_def
      fftw_len1_def world_c2c_def numeral_2_eq_2)

section \<open>Effort levels and results\<close>

text \<open>
  C7. The specification says that the effort level does not change the result. For two
  signals of length 1 the transform is the identity. On the input \<open>(5, 0), (7, 0)\<close> cmvfft_c2c writes
  \<open>(5, 0), (7, 0)\<close> at fastest-guess, but \<open>(5, 0)\<close> and an indeterminate bin at the next
  effort level; cmvfft_c2r writes \<open>5, 7\<close> at fastest-guess, but \<open>5\<close> and an indeterminate
  value above it. The second signal never reaches the scratch array.
\<close>

theorem effort_changes_batched_result:
  "load (heap (cmvfft_c2c fftw_len1 1 2 (Some 0) (Some 1) 0 0 world_c2c)) (Some 1)
     = Some (Cpx [(Some 5, Some 0), (Some 7, Some 0)])
   \<and> load (heap (cmvfft_c2c fftw_len1 1 2 (Some 0) (Some 1) 0 1 world_c2c)) (Some 1)
     = Some (Cpx [(Some 5, Some 0), (None, None)])
   \<and> load (heap (cmvfft_c2r fftw_len1 1 2 (Some 0) (Some 1) 0 world_c2r)) (Some 1)
     = Some (Dbl [Some 5, Some 7])
   \<and> load (heap (cmvfft_c2r fftw_len1 1 2 (Some 0) (Some 1) 1 world_c2r)) (Some 1)
     = Some (Dbl [Some 5, None])"
  by (simp add: run_defs cmvfft_c2c_def cmvfft_c2r_def fftw_plan_many_dft_def
      fftw_plan_many_dft_c2r_def fftw_len1_def world_c2c_def world_c2r_def numeral_2_eq_2)

end
